theory Spec2Isabelle
  imports Complex_Main
begin

section \<open>JavaScript numbers\<close>

text \<open>
  The calculator of \<^verbatim>\<open>src/app/page.tsx\<close> computes with JavaScript numbers, which are
  IEEE 754 doubles. A number is modelled as one of the three special values or a finite
  value, and a finite value is a real number. The result of a finite operation keeps the
  range of a double: it overflows to an infinity from \<open>2^1024 - 2^970\<close> on, and a product
  or quotient of magnitude at most \<open>2^-1075\<close> underflows to 0, as rounding to nearest does.
  Inside that range the result is exact: the rounding of the significand to 53 bits is
  not modelled, and neither is the sign of zero (a zero divisor counts as \<open>+0\<close>).
  Everything that the special values do in the source is kept: \<open>x / 0\<close>, \<open>\<infinity> - \<infinity>\<close>,
  \<open>0 * \<infinity>\<close>, comparisons with \<open>NaN\<close>, \<open>Math.min\<close> and \<open>Math.max\<close> with a \<open>NaN\<close> argument.
\<close>

datatype jsnum = NaN | NInf | Fin real | PInf

fun js_neg :: "jsnum \<Rightarrow> jsnum" where
  "js_neg NaN = NaN"
| "js_neg NInf = PInf"
| "js_neg PInf = NInf"
| "js_neg (Fin a) = Fin (- a)"

text \<open>
  \<^verbatim>\<open>Number.MAX_VALUE\<close>, and the two bounds of rounding to nearest: a real result from
  \<open>overflow_threshold\<close> on rounds to an infinity, and one of magnitude up to
  \<open>underflow_threshold\<close> rounds to 0. A sum or difference of two doubles is 0 or at least
  \<open>2^-1074\<close> in magnitude, so that only products and quotients underflow.
\<close>

definition MAX_VALUE :: real where
  "MAX_VALUE = 2 ^ 1024 - 2 ^ 971"

definition overflow_threshold :: real where
  "overflow_threshold = 2 ^ 1024 - 2 ^ 970"

definition underflow_threshold :: real where
  "underflow_threshold = 1 / 2 ^ 1075"

definition overflow :: "real \<Rightarrow> jsnum" where
  "overflow x =
     (if overflow_threshold \<le> x then PInf
      else if x \<le> - overflow_threshold then NInf
      else Fin x)"

definition underflow :: "real \<Rightarrow> jsnum" where
  "underflow x = (if \<bar>x\<bar> \<le> underflow_threshold then Fin 0 else overflow x)"

fun js_add :: "jsnum \<Rightarrow> jsnum \<Rightarrow> jsnum" where
  "js_add NaN _ = NaN"
| "js_add _ NaN = NaN"
| "js_add PInf NInf = NaN"
| "js_add NInf PInf = NaN"
| "js_add PInf _ = PInf"
| "js_add _ PInf = PInf"
| "js_add NInf _ = NInf"
| "js_add _ NInf = NInf"
| "js_add (Fin a) (Fin b) = overflow (a + b)"

definition js_sub :: "jsnum \<Rightarrow> jsnum \<Rightarrow> jsnum" where
  "js_sub a b = js_add a (js_neg b)"

text \<open>The infinity with the sign of \<open>s\<close>, and \<open>NaN\<close> for \<open>s = 0\<close> (\<open>0 * \<infinity>\<close>, \<open>0 / 0\<close>).\<close>

definition signed_inf :: "real \<Rightarrow> jsnum" where
  "signed_inf s = (if s = 0 then NaN else if 0 < s then PInf else NInf)"

fun js_mul :: "jsnum \<Rightarrow> jsnum \<Rightarrow> jsnum" where
  "js_mul NaN _ = NaN"
| "js_mul _ NaN = NaN"
| "js_mul PInf PInf = PInf"
| "js_mul PInf NInf = NInf"
| "js_mul NInf PInf = NInf"
| "js_mul NInf NInf = PInf"
| "js_mul PInf (Fin b) = signed_inf b"
| "js_mul NInf (Fin b) = signed_inf (- b)"
| "js_mul (Fin a) PInf = signed_inf a"
| "js_mul (Fin a) NInf = signed_inf (- a)"
| "js_mul (Fin a) (Fin b) = underflow (a * b)"

fun js_div :: "jsnum \<Rightarrow> jsnum \<Rightarrow> jsnum" where
  "js_div NaN _ = NaN"
| "js_div _ NaN = NaN"
| "js_div (Fin a) (Fin b) = (if b = 0 then signed_inf a else underflow (a / b))"
| "js_div (Fin a) _ = Fin 0"
| "js_div PInf (Fin b) = (if 0 \<le> b then PInf else NInf)"
| "js_div NInf (Fin b) = (if 0 \<le> b then NInf else PInf)"
| "js_div _ _ = NaN"

text \<open>The comparisons \<open><=\<close> and \<open><\<close>: false as soon as one side is \<open>NaN\<close>.\<close>

fun js_le :: "jsnum \<Rightarrow> jsnum \<Rightarrow> bool" where
  "js_le NaN _ = False"
| "js_le _ NaN = False"
| "js_le NInf _ = True"
| "js_le _ PInf = True"
| "js_le (Fin a) (Fin b) = (a \<le> b)"
| "js_le _ _ = False"

fun js_lt :: "jsnum \<Rightarrow> jsnum \<Rightarrow> bool" where
  "js_lt NaN _ = False"
| "js_lt _ NaN = False"
| "js_lt PInf _ = False"
| "js_lt _ NInf = False"
| "js_lt (Fin a) (Fin b) = (a < b)"
| "js_lt _ _ = True"

definition js_ge :: "jsnum \<Rightarrow> jsnum \<Rightarrow> bool" where
  "js_ge a b = js_le b a"

definition js_gt :: "jsnum \<Rightarrow> jsnum \<Rightarrow> bool" where
  "js_gt a b = js_lt b a"

text \<open>
  \<^verbatim>\<open>Math.min(...xs)\<close> and \<^verbatim>\<open>Math.max(a, b)\<close>: \<open>NaN\<close> as soon as one argument is \<open>NaN\<close>;
  \<^verbatim>\<open>Math.min()\<close> of no argument is \<open>+\<infinity>\<close>.
\<close>

definition min2 :: "jsnum \<Rightarrow> jsnum \<Rightarrow> jsnum" where
  "min2 a b = (if a = NaN \<or> b = NaN then NaN else if js_le a b then a else b)"

fun Math_min :: "jsnum list \<Rightarrow> jsnum" where
  "Math_min [] = PInf"
| "Math_min (x # xs) = min2 x (Math_min xs)"

definition Math_max :: "jsnum \<Rightarrow> jsnum \<Rightarrow> jsnum" where
  "Math_max a b = (if a = NaN \<or> b = NaN then NaN else if js_le a b then b else a)"

text \<open>\<^verbatim>\<open>Math.round\<close>: the nearest integer, a half going up (\<open>\<lfloor>x + 1/2\<rfloor>\<close>).\<close>

fun Math_round :: "jsnum \<Rightarrow> jsnum" where
  "Math_round (Fin a) = Fin (of_int \<lfloor>a + 1 / 2\<rfloor>)"
| "Math_round x = x"

text \<open>
  \<^verbatim>\<open>Array.prototype.reduce\<close> without an initial value: a \<^verbatim>\<open>TypeError\<close> on the empty
  array, and a left fold that starts from the first element otherwise.
\<close>

datatype error = TypeError

fun reduce :: "('a \<Rightarrow> 'a \<Rightarrow> 'a) \<Rightarrow> 'a list \<Rightarrow> error + 'a" where
  "reduce f [] = Inl TypeError"
| "reduce f (x # xs) = Inr (foldl f x xs)"

section \<open>The evaluator\<close>

text \<open>
  The source file holds two copies of the page. The definitions follow the later one
  (from line 194 on), which names its constants and has the sensitivity scan; the
  earlier copy computes the same rules with the constants written out (\<^verbatim>\<open>spend / 2\<close> for
  the buffer target) and words some of its sentences differently.

  The eight numeric pieces of state of \<^verbatim>\<open>Page\<close>; \<^verbatim>\<open>state\<close> and \<^verbatim>\<open>filing\<close> are only
  displayed and take no part in the computation.
\<close>

record inputs =
  netWorth :: jsnum
  salary :: jsnum
  salaryTaxRate :: jsnum
  investReturn :: jsnum
  investTaxRate :: jsnum
  spend :: jsnum
  sideIncome :: jsnum
  cashOnHand :: jsnum

definition TARGET_SALARY_VS_NW :: jsnum where
  "TARGET_SALARY_VS_NW = Fin (10 / 100)"

definition CASH_BUFFER_MONTHS :: jsnum where
  "CASH_BUFFER_MONTHS = Fin 6"

definition CLOSE_BAND_FRACTION :: jsnum where
  "CLOSE_BAND_FRACTION = Fin (5 / 100)"

subsection \<open>Derived values\<close>

definition afterTaxSalary :: "inputs \<Rightarrow> jsnum" where
  "afterTaxSalary i = js_mul (salary i) (js_sub (Fin 1) (salaryTaxRate i))"

definition salaryVsNW :: "inputs \<Rightarrow> jsnum" where
  "salaryVsNW i =
     (if js_gt (netWorth i) (Fin 0) then js_div (afterTaxSalary i) (netWorth i) else PInf)"

definition afterTaxPortfolioReturn :: "inputs \<Rightarrow> jsnum" where
  "afterTaxPortfolioReturn i =
     js_mul (js_mul (netWorth i) (investReturn i)) (js_sub (Fin 1) (investTaxRate i))"

text \<open>The expression \<^verbatim>\<open>(spend / 12) * CASH_BUFFER_MONTHS\<close>, which the source writes out
  at each of its four uses.\<close>

definition bufferTarget :: "inputs \<Rightarrow> jsnum" where
  "bufferTarget i = js_mul (js_div (spend i) (Fin 12)) CASH_BUFFER_MONTHS"

subsection \<open>Rule checks and gaps\<close>

definition passRuleB :: "inputs \<Rightarrow> bool" where
  "passRuleB i = js_le (salaryVsNW i) TARGET_SALARY_VS_NW"

definition passRuleC :: "inputs \<Rightarrow> bool" where
  "passRuleC i = js_ge (js_add (afterTaxPortfolioReturn i) (sideIncome i)) (spend i)"

definition passBuffer :: "inputs \<Rightarrow> bool" where
  "passBuffer i = js_ge (cashOnHand i) (bufferTarget i)"

definition bGap :: "inputs \<Rightarrow> jsnum" where
  "bGap i = js_sub TARGET_SALARY_VS_NW (salaryVsNW i)"

definition cGap :: "inputs \<Rightarrow> jsnum" where
  "cGap i =
     js_div (js_sub (js_add (afterTaxPortfolioReturn i) (sideIncome i)) (spend i)) (spend i)"

definition bufferGap :: "inputs \<Rightarrow> jsnum" where
  "bufferGap i = js_div (js_sub (cashOnHand i) (bufferTarget i)) (bufferTarget i)"

definition failingGaps :: "inputs \<Rightarrow> jsnum list" where
  "failingGaps i =
     [if passRuleB i then PInf else bGap i,
      if passRuleC i then PInf else cGap i,
      if passBuffer i then PInf else bufferGap i]"

definition worstGap :: "inputs \<Rightarrow> jsnum" where
  "worstGap i = Math_min (failingGaps i)"

definition isYes :: "inputs \<Rightarrow> bool" where
  "isYes i = (passRuleB i \<and> passRuleC i \<and> passBuffer i)"

definition isClose :: "inputs \<Rightarrow> bool" where
  "isClose i = (\<not> isYes i \<and> js_ge (worstGap i) (js_neg CLOSE_BAND_FRACTION))"

datatype verdict_label = YES | CLOSE | NOT_YET

definition verdict :: "inputs \<Rightarrow> verdict_label" where
  "verdict i = (if isYes i then YES else if isClose i then CLOSE else NOT_YET)"

subsection \<open>Top driver\<close>

text \<open>
  The five strings the source returns, in its order: "Salary too large vs net worth",
  "Spending too high vs portfolio + side income", "Insufficient cash buffer",
  "You're good" and "Multiple factors".
\<close>

datatype driver_label =
  Salary_too_large | Spending_too_high | Insufficient_cash_buffer | Youre_good | Multiple_factors

text \<open>The body of the memoised function, over the seven values of its dependency list.\<close>

definition driver_of ::
  "bool \<Rightarrow> bool \<Rightarrow> bool \<Rightarrow> jsnum \<Rightarrow> jsnum \<Rightarrow> jsnum \<Rightarrow> bool \<Rightarrow> driver_label" where
  "driver_of pB pC pBuf bG cG bufG yes =
     (if \<not> pB \<and> js_le bG cG \<and> js_le bG bufG then Salary_too_large
      else if \<not> pC \<and> js_le cG bG \<and> js_le cG bufG then Spending_too_high
      else if \<not> pBuf \<and> js_le bufG bG \<and> js_le bufG cG then Insufficient_cash_buffer
      else if yes then Youre_good else Multiple_factors)"

definition driver :: "inputs \<Rightarrow> driver_label" where
  "driver i =
     driver_of (passRuleB i) (passRuleC i) (passBuffer i) (bGap i) (cGap i) (bufferGap i) (isYes i)"

subsection \<open>Next step\<close>

definition neededNWforB :: "inputs \<Rightarrow> jsnum" where
  "neededNWforB i = js_div (afterTaxSalary i) TARGET_SALARY_VS_NW"

definition deltaNW_B :: "inputs \<Rightarrow> jsnum" where
  "deltaNW_B i = Math_max (Fin 0) (js_sub (neededNWforB i) (netWorth i))"

definition shortfallC :: "inputs \<Rightarrow> jsnum" where
  "shortfallC i =
     Math_max (Fin 0) (js_sub (spend i) (js_add (afterTaxPortfolioReturn i) (sideIncome i)))"

definition atRetPerDollar :: "inputs \<Rightarrow> jsnum" where
  "atRetPerDollar i = js_mul (investReturn i) (js_sub (Fin 1) (investTaxRate i))"

definition deltaNW_C :: "inputs \<Rightarrow> jsnum" where
  "deltaNW_C i =
     (if js_gt (atRetPerDollar i) (Fin 0) then js_div (shortfallC i) (atRetPerDollar i) else PInf)"

definition bufferShort :: "inputs \<Rightarrow> jsnum" where
  "bufferShort i = Math_max (Fin 0) (js_sub (bufferTarget i) (cashOnHand i))"

record delta =
  d_label :: string
  d_value :: jsnum

definition deltas :: "inputs \<Rightarrow> delta list" where
  "deltas i =
     (if passRuleB i then []
      else [\<lparr>d_label = ''Grow net worth (Rule B)'', d_value = deltaNW_B i\<rparr>]) @
     (if passRuleC i then []
      else [\<lparr>d_label = ''Add side income'', d_value = shortfallC i\<rparr>,
            \<lparr>d_label = ''Cut spending'', d_value = shortfallC i\<rparr>,
            \<lparr>d_label = ''Grow net worth (Rule C)'', d_value = deltaNW_C i\<rparr>]) @
     (if passBuffer i then []
      else [\<lparr>d_label = ''Hold more cash'', d_value = bufferShort i\<rparr>])"

definition pick :: "delta \<Rightarrow> delta \<Rightarrow> delta" where
  "pick a b = (if js_le (d_value a) (d_value b) then a else b)"

definition best :: "inputs \<Rightarrow> error + delta" where
  "best i = reduce pick (deltas i)"

text \<open>
  The number that \<^verbatim>\<open>pretty\<close> hands to \<^verbatim>\<open>currency\<close>. The text that \<^verbatim>\<open>toLocaleString\<close>
  makes of it depends on the locale of the browser and is not modelled.
\<close>

definition pretty :: "jsnum \<Rightarrow> jsnum" where
  "pretty v = Math_max (Fin 0) (Math_round v)"

text \<open>
  The sentences of the \<^verbatim>\<open>switch\<close>, each with the amount it shows: "You can coast.",
  "Add about $.. to net worth to get salary <= 10% of NW.", "Add about $../yr in side
  income to meet spending.", "Trim spending by about $.. to meet coverage.", "Add about
  $.. to net worth so returns cover spending.", "Hold about $.. more in cash for a
  6-month buffer." and "Make the smallest change above to flip this to YES.".
\<close>

datatype sentence =
  You_can_coast
| Add_to_net_worth_for_salary jsnum
| Add_side_income_per_year jsnum
| Trim_spending_by jsnum
| Add_to_net_worth_for_returns jsnum
| Hold_more_in_cash jsnum
| Make_the_smallest_change

definition render :: "delta \<Rightarrow> sentence" where
  "render b =
     (if d_label b = ''Grow net worth (Rule B)'' then Add_to_net_worth_for_salary (pretty (d_value b))
      else if d_label b = ''Add side income'' then Add_side_income_per_year (pretty (d_value b))
      else if d_label b = ''Cut spending'' then Trim_spending_by (pretty (d_value b))
      else if d_label b = ''Grow net worth (Rule C)'' then Add_to_net_worth_for_returns (pretty (d_value b))
      else if d_label b = ''Hold more cash'' then Hold_more_in_cash (pretty (d_value b))
      else Make_the_smallest_change)"

definition nextStep :: "inputs \<Rightarrow> error + sentence" where
  "nextStep i =
     (if length (deltas i) = 0 then Inr You_can_coast
      else case best i of Inl e \<Rightarrow> Inl e | Inr b \<Rightarrow> Inr (render b))"

subsection \<open>Return sensitivity\<close>

definition returnScenarios :: "jsnum list" where
  "returnScenarios = [Fin (8 / 100), Fin (9 / 100), Fin (10 / 100), Fin (11 / 100), Fin (12 / 100)]"

record scenario =
  sc_r :: jsnum
  sc_yes :: bool
  sc_close :: bool
  sc_coverage :: jsnum

definition verdictForR :: "inputs \<Rightarrow> jsnum \<Rightarrow> scenario" where
  "verdictForR i r =
     (let atRet = js_mul (js_mul (netWorth i) r) (js_sub (Fin 1) (investTaxRate i));
          b = js_le (salaryVsNW i) TARGET_SALARY_VS_NW;
          c = js_ge (js_add atRet (sideIncome i)) (spend i);
          buffer = passBuffer i;
          cGapR = js_div (js_sub (js_add atRet (sideIncome i)) (spend i)) (spend i);
          failing = [if b then PInf else js_sub TARGET_SALARY_VS_NW (salaryVsNW i),
                     if c then PInf else cGapR,
                     if buffer then PInf else bufferGap i];
          worst = Math_min failing;
          yes = (b \<and> c \<and> buffer);
          close = (\<not> yes \<and> js_ge worst (js_neg CLOSE_BAND_FRACTION));
          coverage = js_div (js_add atRet (sideIncome i)) (spend i)
      in \<lparr>sc_r = r, sc_yes = yes, sc_close = close, sc_coverage = coverage\<rparr>)"

definition sensitivity :: "inputs \<Rightarrow> scenario list" where
  "sensitivity i = map (verdictForR i) returnScenarios"

subsection \<open>One render\<close>

text \<open>
  Everything one render of \<^verbatim>\<open>Page\<close> computes for display. The only operation of the
  component that can throw is the \<^verbatim>\<open>reduce\<close> inside \<^verbatim>\<open>nextStep\<close>; a throw there would
  abort the render.
\<close>

record result =
  r_verdict :: verdict_label
  r_driver :: driver_label
  r_passRuleB :: bool
  r_passRuleC :: bool
  r_passBuffer :: bool
  r_bGap :: jsnum
  r_cGap :: jsnum
  r_bufferGap :: jsnum
  r_afterTaxSalary :: jsnum
  r_salaryVsNW :: jsnum
  r_afterTaxPortfolioReturn :: jsnum
  r_nextStep :: sentence
  r_sensitivity :: "scenario list"

definition evaluate :: "inputs \<Rightarrow> error + result" where
  "evaluate i =
     (case nextStep i of
        Inl e \<Rightarrow> Inl e
      | Inr s \<Rightarrow>
          Inr \<lparr>r_verdict = verdict i, r_driver = driver i,
               r_passRuleB = passRuleB i, r_passRuleC = passRuleC i, r_passBuffer = passBuffer i,
               r_bGap = bGap i, r_cGap = cGap i, r_bufferGap = bufferGap i,
               r_afterTaxSalary = afterTaxSalary i, r_salaryVsNW = salaryVsNW i,
               r_afterTaxPortfolioReturn = afterTaxPortfolioReturn i,
               r_nextStep = s, r_sensitivity = sensitivity i\<rparr>)"

section \<open>Finite inputs\<close>

text \<open>
  The specification takes finite numbers for the inputs; the fields of the page hold
  what \<^verbatim>\<open>Number\<close> parses from a numeric input element. A finite JavaScript number has
  a magnitude of at most \<^verbatim>\<open>Number.MAX_VALUE\<close>.
\<close>

fun is_fin :: "jsnum \<Rightarrow> bool" where
  "is_fin (Fin a) = True"
| "is_fin _ = False"

definition is_number :: "jsnum \<Rightarrow> bool" where
  "is_number v = (case v of Fin a \<Rightarrow> \<bar>a\<bar> \<le> MAX_VALUE | _ \<Rightarrow> False)"

definition finite_inputs :: "inputs \<Rightarrow> bool" where
  "finite_inputs i =
     (is_number (netWorth i) \<and> is_number (salary i) \<and> is_number (salaryTaxRate i) \<and>
      is_number (investReturn i) \<and> is_number (investTaxRate i) \<and> is_number (spend i) \<and>
      is_number (sideIncome i) \<and> is_number (cashOnHand i))"

text \<open>A magnitude is not negative: it is a finite number from 0 on, \<open>+\<infinity>\<close> or \<open>NaN\<close>.\<close>

definition not_negative :: "jsnum \<Rightarrow> bool" where
  "not_negative v = (case v of Fin a \<Rightarrow> 0 \<le> a | NInf \<Rightarrow> False | _ \<Rightarrow> True)"

text \<open>
  A gap lies on the side of its rule's result: from 0 up when the rule passes, from 0
  down when it fails.
\<close>

definition on_side :: "bool \<Rightarrow> jsnum \<Rightarrow> bool" where
  "on_side pass gap = (if pass then js_le (Fin 0) gap else js_le gap (Fin 0))"

text \<open>The amount that a sentence shows, if it shows one.\<close>

fun amount_of :: "sentence \<Rightarrow> jsnum option" where
  "amount_of (Add_to_net_worth_for_salary a) = Some a"
| "amount_of (Add_side_income_per_year a) = Some a"
| "amount_of (Trim_spending_by a) = Some a"
| "amount_of (Add_to_net_worth_for_returns a) = Some a"
| "amount_of (Hold_more_in_cash a) = Some a"
| "amount_of _ = None"

section \<open>The specification's wording\<close>

text \<open>
  The definitions of this section follow the sentences of the specification, not the
  source; the theorems compare them with the source's.
\<close>

text \<open>
  The worst gap: the minimum over the gaps of the failing rules only.
\<close>

definition spec_worstGap :: "inputs \<Rightarrow> jsnum" where
  "spec_worstGap i =
     Math_min (map snd (filter (\<lambda>(pass, gap). \<not> pass)
       [(passRuleB i, bGap i), (passRuleC i, cGap i), (passBuffer i, bufferGap i)]))"

text \<open>A rule's gap as the ranking is said to see it: \<open>+\<infinity>\<close> when the rule passes.\<close>

definition masked :: "bool \<Rightarrow> jsnum \<Rightarrow> jsnum" where
  "masked pass gap = (if pass then PInf else gap)"

text \<open>The driver selection run on the gaps with each passing rule's gap replaced by \<open>+\<infinity>\<close>.\<close>

definition spec_masked_driver :: "inputs \<Rightarrow> driver_label" where
  "spec_masked_driver i =
     driver_of (passRuleB i) (passRuleC i) (passBuffer i)
       (masked (passRuleB i) (bGap i)) (masked (passRuleC i) (cGap i))
       (masked (passBuffer i) (bufferGap i)) (isYes i)"

text \<open>
  The top driver: among the failing rules, in the order Rule B, Rule C, buffer, the
  first one whose gap is at most the gap of every other failing rule; the all-good label
  when no rule fails.
\<close>

definition spec_driver :: "inputs \<Rightarrow> driver_label option" where
  "spec_driver i =
     (let failing = filter (\<lambda>(l, pass, gap). \<not> pass)
            [(Salary_too_large, passRuleB i, bGap i),
             (Spending_too_high, passRuleC i, cGap i),
             (Insufficient_cash_buffer, passBuffer i, bufferGap i)]
      in if failing = [] then Some Youre_good
         else map_option fst
           (find (\<lambda>(l, p, g). list_all (\<lambda>(l', p', g'). l' = l \<or> js_le g g') failing) failing))"

text \<open>
  The selection of the next step: the candidate with the smallest required magnitude,
  the first-listed one among equals.
\<close>

definition spec_best :: "delta list \<Rightarrow> delta option" where
  "spec_best ds = find (\<lambda>d. list_all (\<lambda>e. js_le (d_value d) (d_value e)) ds) ds"

text \<open>The displayed amount: rounded up (\<^verbatim>\<open>Math.ceil\<close>) and floored at 0.\<close>

fun Math_ceil :: "jsnum \<Rightarrow> jsnum" where
  "Math_ceil (Fin a) = Fin (of_int \<lceil>a\<rceil>)"
| "Math_ceil x = x"

definition spec_pretty :: "jsnum \<Rightarrow> jsnum" where
  "spec_pretty v = Math_max (Fin 0) (Math_ceil v)"

text \<open>
  One scenario of the sensitivity scan: only the after-tax portfolio return is
  recomputed, with \<open>r\<close> in the place of the return rate; Rule B's result and the buffer
  rule's result and gap are the evaluator's own; Rule C and its gap use the scenario
  return; the flags follow the verdict policy of the evaluator.
\<close>

definition spec_scenario :: "inputs \<Rightarrow> jsnum \<Rightarrow> scenario" where
  "spec_scenario i r =
     (let i' = i\<lparr>investReturn := r\<rparr>;
          yes = (passRuleB i \<and> passRuleC i' \<and> passBuffer i);
          worst = Math_min [masked (passRuleB i) (bGap i), masked (passRuleC i') (cGap i'),
                            masked (passBuffer i) (bufferGap i)]
      in \<lparr>sc_r = r, sc_yes = yes,
          sc_close = (\<not> yes \<and> js_ge worst (Fin (- (5 / 100)))),
          sc_coverage = js_div (js_add (afterTaxPortfolioReturn i') (sideIncome i)) (spend i)\<rparr>)"

section \<open>Example inputs\<close>

text \<open>The defaults of the page, which are the first scenario example of the specification.\<close>

definition example1 :: inputs where
  "example1 =
     \<lparr>netWorth = Fin 3000000, salary = Fin 480000, salaryTaxRate = Fin (25 / 100),
      investReturn = Fin (10 / 100), investTaxRate = Fin (20 / 100), spend = Fin 180000,
      sideIncome = Fin 0, cashOnHand = Fin 60000\<rparr>"

text \<open>The second scenario example of the specification: all three rules pass.\<close>

definition example2 :: inputs where
  "example2 =
     \<lparr>netWorth = Fin 4000000, salary = Fin 480000, salaryTaxRate = Fin (25 / 100),
      investReturn = Fin (10 / 100), investTaxRate = Fin (20 / 100), spend = Fin 180000,
      sideIncome = Fin 0, cashOnHand = Fin 90000\<rparr>"

text \<open>
  Rule B and the buffer rule pass, and Rule C misses by exactly 5% of the spending
  (171,000 of side income against 180,000, no portfolio return).
\<close>

definition example_close :: inputs where
  "example_close =
     \<lparr>netWorth = Fin 4000000, salary = Fin 480000, salaryTaxRate = Fin (25 / 100),
      investReturn = Fin 0, investTaxRate = Fin (20 / 100), spend = Fin 180000,
      sideIncome = Fin 171000, cashOnHand = Fin 90000\<rparr>"

text \<open>The defaults of the page with the spending and the cash fields cleared.\<close>

definition example_nan :: inputs where
  "example_nan =
     \<lparr>netWorth = Fin 3000000, salary = Fin 480000, salaryTaxRate = Fin (25 / 100),
      investReturn = Fin (10 / 100), investTaxRate = Fin (20 / 100), spend = Fin 0,
      sideIncome = Fin 0, cashOnHand = Fin 0\<rparr>"

text \<open>The defaults of the page with the net worth and the spending fields cleared.\<close>

definition example_nw0 :: inputs where
  "example_nw0 =
     \<lparr>netWorth = Fin 0, salary = Fin 480000, salaryTaxRate = Fin (25 / 100),
      investReturn = Fin (10 / 100), investTaxRate = Fin (20 / 100), spend = Fin 0,
      sideIncome = Fin 0, cashOnHand = Fin 60000\<rparr>"

text \<open>The defaults of the page with the net worth field cleared.\<close>

definition example_nw0_ok :: inputs where
  "example_nw0_ok =
     \<lparr>netWorth = Fin 0, salary = Fin 480000, salaryTaxRate = Fin (25 / 100),
      investReturn = Fin (10 / 100), investTaxRate = Fin (20 / 100), spend = Fin 180000,
      sideIncome = Fin 0, cashOnHand = Fin 60000\<rparr>"

text \<open>The defaults of the page with 40 cents less than 60,000 of cash.\<close>

definition example_round :: inputs where
  "example_round =
     \<lparr>netWorth = Fin 3000000, salary = Fin 480000, salaryTaxRate = Fin (25 / 100),
      investReturn = Fin (10 / 100), investTaxRate = Fin (20 / 100), spend = Fin 180000,
      sideIncome = Fin 0, cashOnHand = Fin (599996 / 10)\<rparr>"

text \<open>
  The defaults of the page with no cash and the smallest positive double, \<open>2^-1074\<close>
  (5e-324), for the spending: the buffer target underflows to 0.
\<close>

definition example_underflow :: inputs where
  "example_underflow =
     \<lparr>netWorth = Fin 3000000, salary = Fin 480000, salaryTaxRate = Fin (25 / 100),
      investReturn = Fin (10 / 100), investTaxRate = Fin (20 / 100), spend = Fin (1 / 2 ^ 1074),
      sideIncome = Fin 0, cashOnHand = Fin 0\<rparr>"

text \<open>
  Finite inputs at which the portfolio return overflows: net worth 1e308, salary 1.5e307
  untaxed, return 200% taxed at 100%, spending 1.5e308, no side income and no cash.
\<close>

definition example_overflow :: inputs where
  "example_overflow =
     \<lparr>netWorth = Fin (10 ^ 308), salary = Fin (15 * 10 ^ 306), salaryTaxRate = Fin 0,
      investReturn = Fin 2, investTaxRate = Fin 1, spend = Fin (15 * 10 ^ 307),
      sideIncome = Fin 0, cashOnHand = Fin 0\<rparr>"

text \<open>
  Finite inputs at which the net worth that Rule B asks for overflows: net worth and
  salary 1e308, 90,000 of cash, the other fields at their defaults.
\<close>

definition example_infinite :: inputs where
  "example_infinite =
     \<lparr>netWorth = Fin (10 ^ 308), salary = Fin (10 ^ 308), salaryTaxRate = Fin (25 / 100),
      investReturn = Fin (10 / 100), investTaxRate = Fin (20 / 100), spend = Fin 180000,
      sideIncome = Fin 0, cashOnHand = Fin 90000\<rparr>"

section \<open>Verification\<close>

text \<open>
  The theorems about the verdict, the driver selection, the choice of the next step and
  the scan use the comparisons only, whatever the numbers compared. Those about the
  sides of the gaps and about the net worth use of the arithmetic only that a sum, a
  difference, a product or a quotient with finite operands is never \<open>NaN\<close> outside
  \<open>0 / 0\<close>, keeps the sign of the exact result or becomes 0, and keeps its order; the
  results of the doubles have these properties too. Where a statement needs a gap or a
  magnitude not to be \<open>NaN\<close>, that is its hypothesis: finite inputs do not ensure it.
\<close>

lemmas num_defs =
  js_sub_def js_ge_def js_gt_def min2_def Math_max_def signed_inf_def
  TARGET_SALARY_VS_NW_def CASH_BUFFER_MONTHS_def CLOSE_BAND_FRACTION_def

lemmas rule_defs =
  afterTaxSalary_def salaryVsNW_def afterTaxPortfolioReturn_def bufferTarget_def
  passRuleB_def passRuleC_def passBuffer_def bGap_def cGap_def bufferGap_def

lemmas verdict_defs =
  failingGaps_def worstGap_def isYes_def isClose_def verdict_def

lemmas step_defs =
  neededNWforB_def deltaNW_B_def shortfallC_def atRetPerDollar_def deltaNW_C_def
  bufferShort_def deltas_def pick_def best_def pretty_def render_def nextStep_def

lemmas range_defs =
  overflow_def underflow_def overflow_threshold_def underflow_threshold_def MAX_VALUE_def
  is_number_def

subsection \<open>The range of a double\<close>

lemma overflow_threshold_big: "2 ^ 64 < overflow_threshold"
proof -
  have "(2::real) ^ 1024 = 2 ^ 1023 * 2" by (simp add: power_add [symmetric])
  moreover have "(2::real) ^ 970 \<le> 2 ^ 1023" by (rule power_increasing) simp_all
  moreover have "(2::real) ^ 64 < 2 ^ 1023" by (rule power_strict_increasing) simp_all
  ultimately show ?thesis
    unfolding overflow_threshold_def by linarith
qed

lemma max_value_big: "2 ^ 64 < MAX_VALUE"
proof -
  have "(2::real) ^ 1024 = 2 ^ 1023 * 2" by (simp add: power_add [symmetric])
  moreover have "(2::real) ^ 971 \<le> 2 ^ 1023" by (rule power_increasing) simp_all
  moreover have "(2::real) ^ 64 < 2 ^ 1023" by (rule power_strict_increasing) simp_all
  ultimately show ?thesis
    unfolding MAX_VALUE_def by linarith
qed

lemma max_value_room: "MAX_VALUE + 1 < overflow_threshold"
proof -
  have "(2::real) ^ 971 = 2 ^ 970 * 2" by (simp add: power_add [symmetric])
  moreover have "(1::real) < 2 ^ 970" by (rule one_less_power) simp_all
  ultimately show ?thesis
    unfolding MAX_VALUE_def overflow_threshold_def by linarith
qed

lemma underflow_threshold_small: "underflow_threshold < 1 / 2 ^ 64"
  unfolding underflow_threshold_def
  by (simp add: field_simps power_strict_increasing)

lemma underflow_threshold_pos: "0 < underflow_threshold"
  by (simp add: underflow_threshold_def)

lemma overflow_threshold_pos: "0 < overflow_threshold"
proof -
  have "(0::real) < 2 ^ 64" by simp
  with overflow_threshold_big show ?thesis by linarith
qed

lemma overflow_Fin [simp]: "\<bar>x\<bar> \<le> 2 ^ 64 \<Longrightarrow> overflow x = Fin x"
  using overflow_threshold_big by (auto simp: overflow_def)

lemma underflow_0 [simp]: "underflow 0 = Fin 0"
  using underflow_threshold_pos by (simp add: underflow_def)

lemma underflow_Fin [simp]:
  "1 / 2 ^ 64 \<le> \<bar>x\<bar> \<Longrightarrow> \<bar>x\<bar> \<le> 2 ^ 64 \<Longrightarrow> underflow x = Fin x"
  using underflow_threshold_small overflow_threshold_big by (auto simp: underflow_def overflow_def)

lemma is_number_Fin [simp]: "\<bar>x\<bar> \<le> 2 ^ 64 \<Longrightarrow> is_number (Fin x)"
  using max_value_big by (simp add: is_number_def)

lemma overflow_cases:
  "overflow x = PInf \<and> 0 < x \<or> overflow x = NInf \<and> x < 0 \<or> overflow x = Fin x"
  using overflow_threshold_pos by (auto simp: overflow_def)

lemma underflow_cases:
  "underflow x = PInf \<and> 0 < x \<or> underflow x = NInf \<and> x < 0 \<or>
   underflow x = Fin 0 \<or> underflow x = Fin x"
  using overflow_threshold_pos by (auto simp: underflow_def overflow_def)

lemma overflow_sign:
  "0 \<le> x \<Longrightarrow> js_le (Fin 0) (overflow x)" "x \<le> 0 \<Longrightarrow> js_le (overflow x) (Fin 0)"
  using overflow_threshold_pos by (auto simp: overflow_def)

lemma underflow_sign:
  "0 \<le> x \<Longrightarrow> js_le (Fin 0) (underflow x)" "x \<le> 0 \<Longrightarrow> js_le (underflow x) (Fin 0)"
  using overflow_threshold_pos by (auto simp: underflow_def overflow_def)

lemma overflow_mono: "x \<le> y \<Longrightarrow> js_le (overflow x) (overflow y)"
  using overflow_threshold_pos by (auto simp: overflow_def)

lemma js_le_underflow_tenth: "js_le (underflow x) (Fin (1 / 10)) \<longleftrightarrow> x \<le> 1 / 10"
proof -
  have "(1::real) / 2 ^ 64 < 1 / 10" by simp
  with underflow_threshold_small have u: "underflow_threshold < 1 / 10" by linarith
  have "(1::real) / 10 < 2 ^ 64" by simp
  with overflow_threshold_big have o: "1 / 10 < overflow_threshold" by linarith
  from u o underflow_threshold_pos show ?thesis
    by (auto simp: underflow_def overflow_def)
qed

lemma overflow_one_minus: "\<bar>x\<bar> \<le> MAX_VALUE \<Longrightarrow> overflow (1 - x) = Fin (1 - x)"
  using max_value_room by (auto simp: overflow_def)

subsection \<open>Comparisons\<close>

lemma min2_PInf [simp]: "min2 PInf x = x" "min2 x PInf = x"
  by (cases x; simp add: min2_def)+

lemma js_le_min2: "js_le (Fin c) (min2 a b) \<longleftrightarrow> js_le (Fin c) a \<and> js_le (Fin c) b"
  by (cases a; cases b; simp add: min2_def) auto

lemma js_le_total: "a \<noteq> NaN \<Longrightarrow> b \<noteq> NaN \<Longrightarrow> js_le a b \<or> js_le b a"
  by (cases a; cases b) auto

lemma js_le_trans: "js_le a b \<Longrightarrow> js_le b c \<Longrightarrow> js_le a c"
  by (cases a; cases b; cases c) auto

lemma js_le_refl: "a \<noteq> NaN \<Longrightarrow> js_le a a"
  by (cases a) auto

lemma js_le_NInf: "js_le NInf x \<longleftrightarrow> x \<noteq> NaN"
  by (cases x) auto

lemma is_fin_iff: "is_fin x \<longleftrightarrow> (\<exists>a. x = Fin a)"
  by (cases x) auto

lemma Math_max_0_mono:
  "js_le x y \<Longrightarrow> js_le (Math_max (Fin 0) x) (Math_max (Fin 0) y)"
  by (cases x; cases y) (auto simp: Math_max_def)

lemma Math_max_0_not_negative: "not_negative (Math_max (Fin 0) x)"
  by (cases x) (auto simp: Math_max_def not_negative_def)

subsection \<open>The first scenario example\<close>

text \<open>
  Claim C2. At net worth 3,000,000, salary 480,000, salary tax rate 0.25, return 0.10,
  tax on returns 0.20, spending 180,000, no side income and 60,000 of cash, the evaluator
  finds an after-tax salary of 360,000 and a salary to net worth ratio of 0.12, so that
  Rule B fails with gap -0.02; an after-tax portfolio return of 240,000, so that Rule C
  passes; a buffer target of 90,000 above the cash on hand, so that the buffer rule fails
  with gap -1/3; the worst gap -1/3, the verdict NOT YET, the driver "Insufficient cash
  buffer", and the next step to hold about $30,000 more in cash.
\<close>

theorem example1_evaluation:
  "afterTaxSalary example1 = Fin 360000 \<and>
   salaryVsNW example1 = Fin (12 / 100) \<and>
   \<not> passRuleB example1 \<and> bGap example1 = Fin (- (2 / 100)) \<and>
   afterTaxPortfolioReturn example1 = Fin 240000 \<and> passRuleC example1 \<and>
   bufferTarget example1 = Fin 90000 \<and> js_gt (bufferTarget example1) (cashOnHand example1) \<and>
   \<not> passBuffer example1 \<and> bufferGap example1 = Fin (- (1 / 3)) \<and>
   worstGap example1 = Fin (- (1 / 3)) \<and>
   verdict example1 = NOT_YET \<and>
   driver example1 = Insufficient_cash_buffer \<and>
   nextStep example1 = Inr (Hold_more_in_cash (Fin 30000))"
  by (simp add: example1_def num_defs rule_defs verdict_defs step_defs driver_def driver_of_def)

subsection \<open>The verdict\<close>

lemma worstGap_spec: "worstGap i = spec_worstGap i"
  by (simp add: worstGap_def failingGaps_def spec_worstGap_def)

text \<open>
  Claim C1. For every input the verdict is YES exactly when Rule B, Rule C and the buffer
  rule all pass. Otherwise the worst gap is the minimum over the gaps of the failing
  rules only (a passing rule counts as \<open>+\<infinity>\<close>), the verdict is CLOSE exactly when the
  worst gap is at least -0.05, which is to say when every failing rule's gap is, and
  NOT YET in every other case. A worst gap of exactly -0.05 gives CLOSE.
\<close>

theorem verdict_policy:
  "(verdict i = YES \<longleftrightarrow> passRuleB i \<and> passRuleC i \<and> passBuffer i) \<and>
   worstGap i = spec_worstGap i \<and>
   (verdict i = CLOSE \<longleftrightarrow>
      \<not> (passRuleB i \<and> passRuleC i \<and> passBuffer i) \<and> js_ge (worstGap i) (Fin (- (5 / 100)))) \<and>
   (verdict i = NOT_YET \<longleftrightarrow>
      \<not> (passRuleB i \<and> passRuleC i \<and> passBuffer i) \<and> \<not> js_ge (worstGap i) (Fin (- (5 / 100)))) \<and>
   (js_ge (worstGap i) (Fin (- (5 / 100))) \<longleftrightarrow>
      (passRuleB i \<or> js_ge (bGap i) (Fin (- (5 / 100)))) \<and>
      (passRuleC i \<or> js_ge (cGap i) (Fin (- (5 / 100)))) \<and>
      (passBuffer i \<or> js_ge (bufferGap i) (Fin (- (5 / 100))))) \<and>
   (\<not> (passRuleB i \<and> passRuleC i \<and> passBuffer i) \<and> worstGap i = Fin (- (5 / 100))
      \<longrightarrow> verdict i = CLOSE)"
proof -
  have yes: "verdict i = YES \<longleftrightarrow> passRuleB i \<and> passRuleC i \<and> passBuffer i"
    by (simp add: verdict_def isYes_def)
  have close: "verdict i = CLOSE \<longleftrightarrow>
      \<not> (passRuleB i \<and> passRuleC i \<and> passBuffer i) \<and> js_ge (worstGap i) (Fin (- (5 / 100)))"
    by (simp add: verdict_def isYes_def isClose_def CLOSE_BAND_FRACTION_def)
  have notyet: "verdict i = NOT_YET \<longleftrightarrow>
      \<not> (passRuleB i \<and> passRuleC i \<and> passBuffer i) \<and> \<not> js_ge (worstGap i) (Fin (- (5 / 100)))"
    by (simp add: verdict_def isYes_def isClose_def CLOSE_BAND_FRACTION_def)
  have each: "js_ge (worstGap i) (Fin (- (5 / 100))) \<longleftrightarrow>
      (passRuleB i \<or> js_ge (bGap i) (Fin (- (5 / 100)))) \<and>
      (passRuleC i \<or> js_ge (cGap i) (Fin (- (5 / 100)))) \<and>
      (passBuffer i \<or> js_ge (bufferGap i) (Fin (- (5 / 100))))"
    by (simp add: worstGap_def failingGaps_def js_ge_def js_le_min2)
  have boundary: "\<not> (passRuleB i \<and> passRuleC i \<and> passBuffer i) \<and> worstGap i = Fin (- (5 / 100))
      \<longrightarrow> verdict i = CLOSE"
    using close by (simp add: js_ge_def)
  from yes close notyet each boundary worstGap_spec show ?thesis by blast
qed

theorem verdict_policy_witness:
  "\<not> (passRuleB example_close \<and> passRuleC example_close \<and> passBuffer example_close) \<and>
   passRuleB example_close \<and> passBuffer example_close \<and>
   cGap example_close = Fin (- (5 / 100)) \<and>
   worstGap example_close = Fin (- (5 / 100)) \<and>
   verdict example_close = CLOSE"
  using verdict_policy [of example_close]
  by (simp add: example_close_def num_defs rule_defs verdict_defs spec_worstGap_def)

subsection \<open>Totality\<close>

lemma reduce_Inr: "xs \<noteq> [] \<Longrightarrow> \<exists>y. reduce f xs = Inr y"
  by (cases xs) auto

lemma nextStep_Inr: "\<exists>s. nextStep i = Inr s"
proof (cases "deltas i = []")
  case True
  then show ?thesis by (simp add: nextStep_def)
next
  case False
  from reduce_Inr [OF this] obtain b where "reduce pick (deltas i) = Inr b" by blast
  with False show ?thesis by (simp add: nextStep_def best_def)
qed

lemma js_div_zero_not_fin: "\<not> is_fin (js_div x (Fin 0))"
  by (cases x) (simp_all add: signed_inf_def)

text \<open>
  Claim C6. The evaluator is total: no input, finite or not, makes it throw. The one
  operation that could, \<^verbatim>\<open>reduce\<close> on an empty array, is never reached with an empty
  candidate list, and the arithmetic yields infinities and \<open>NaN\<close> in the place of errors:
  with no spending the gaps of Rule C and of the buffer rule are infinite or \<open>NaN\<close>, and
  with no net worth the salary ratio is \<open>+\<infinity>\<close> and the gap of Rule B is \<open>-\<infinity>\<close>.
\<close>

theorem evaluate_total:
  "(\<exists>res. evaluate i = Inr res) \<and>
   (\<exists>s. nextStep i = Inr s) \<and>
   (spend i = Fin 0 \<longrightarrow> \<not> is_fin (cGap i) \<and> \<not> is_fin (bufferGap i)) \<and>
   (netWorth i = Fin 0 \<longrightarrow> salaryVsNW i = PInf \<and> bGap i = NInf)"
proof -
  from nextStep_Inr obtain s where s: "nextStep i = Inr s" by blast
  then have "\<exists>res. evaluate i = Inr res" by (simp add: evaluate_def)
  moreover have "\<not> is_fin (cGap i) \<and> \<not> is_fin (bufferGap i)" if "spend i = Fin 0"
    using that
    by (simp add: cGap_def bufferGap_def bufferTarget_def CASH_BUFFER_MONTHS_def
        js_div_zero_not_fin)
  moreover have "salaryVsNW i = PInf \<and> bGap i = NInf" if "netWorth i = Fin 0"
    using that by (simp add: salaryVsNW_def bGap_def js_gt_def js_sub_def TARGET_SALARY_VS_NW_def)
  ultimately show ?thesis using s by blast
qed

theorem evaluate_total_witness:
  "spend example_nw0 = Fin 0 \<and> netWorth example_nw0 = Fin 0 \<and>
   cGap example_nw0 = NaN \<and> bufferGap example_nw0 = PInf \<and>
   salaryVsNW example_nw0 = PInf \<and> bGap example_nw0 = NInf \<and>
   nextStep example_nw0 = Inr (Add_to_net_worth_for_salary (Fin 3600000)) \<and>
   \<not> isl (evaluate example_nw0)"
  using evaluate_total [of example_nw0]
  by (auto simp add: example_nw0_def num_defs rule_defs step_defs)

subsection \<open>Monotonicity in the net worth\<close>

text \<open>Finite inputs are a record of eight reals within the range of a double.\<close>

lemma finite_inputs_record:
  assumes "finite_inputs i"
  obtains nw s st r t sp si c where
    "i = \<lparr>netWorth = Fin nw, salary = Fin s, salaryTaxRate = Fin st, investReturn = Fin r,
          investTaxRate = Fin t, spend = Fin sp, sideIncome = Fin si, cashOnHand = Fin c\<rparr>"
    "\<bar>st\<bar> \<le> MAX_VALUE"
proof (cases i)
  case (fields x1 x2 x3 x4 x5 x6 x7 x8)
  with assms that show thesis
    by (auto simp: finite_inputs_def is_number_def split: jsnum.splits)
qed

lemma ratio_mono:
  assumes "0 < nw" and "nw < nw'" and "js_le (js_div A (Fin nw)) (Fin (1 / 10))"
  shows "js_le (js_div A (Fin nw')) (Fin (1 / 10))"
proof (cases A)
  case (Fin a)
  with assms(1,3) have "a / nw \<le> 1 / 10" by (simp add: js_le_underflow_tenth)
  with assms(1) have "a \<le> nw / 10" by (simp add: pos_divide_le_eq)
  with assms(2) have "a \<le> nw' / 10" by simp
  moreover from assms(1,2) have pos: "0 < nw'" by simp
  ultimately have "a / nw' \<le> 1 / 10" by (simp add: pos_divide_le_eq)
  with Fin pos show ?thesis by (simp add: js_le_underflow_tenth)
qed (use assms in auto)

lemma needed_mono:
  assumes "N \<noteq> NaN" and "nw \<le> nw'"
  shows "js_le (Math_max (Fin 0) (js_sub N (Fin nw'))) (Math_max (Fin 0) (js_sub N (Fin nw)))"
proof (rule Math_max_0_mono)
  from assms show "js_le (js_sub N (Fin nw')) (js_sub N (Fin nw))"
    by (cases N) (auto simp: js_sub_def intro: overflow_mono)
qed

lemma underflow_not_NaN [simp]: "underflow x \<noteq> NaN"
  using underflow_cases [of x] by auto

lemma overflow_not_NaN [simp]: "overflow x \<noteq> NaN"
  using overflow_cases [of x] by auto

lemma js_div_tenth_not_NaN: "A \<noteq> NaN \<Longrightarrow> js_div A (Fin (1 / 10)) \<noteq> NaN"
  by (cases A) auto

text \<open>
  Claim C7. For finite inputs that differ in the net worth only, the larger net worth
  keeps Rule B passing when it passes at the smaller one, and the net worth increase
  that Rule B asks for, \<open>max(0, afterTaxSalary / 0.10 - netWorth)\<close>, is not larger at the
  larger net worth.
\<close>

theorem rule_B_monotone:
  assumes "finite_inputs i" and "netWorth i = Fin nw" and "nw < nw'"
  shows "(passRuleB i \<longrightarrow> passRuleB (i\<lparr>netWorth := Fin nw'\<rparr>)) \<and>
         js_le (deltaNW_B (i\<lparr>netWorth := Fin nw'\<rparr>)) (deltaNW_B i) \<and>
         deltaNW_B i =
           Math_max (Fin 0) (js_sub (js_div (afterTaxSalary i) (Fin (10 / 100))) (netWorth i))"
proof -
  from assms(1) obtain nw0 s st r t sp si c where
    i: "i = \<lparr>netWorth = Fin nw0, salary = Fin s, salaryTaxRate = Fin st, investReturn = Fin r,
          investTaxRate = Fin t, spend = Fin sp, sideIncome = Fin si, cashOnHand = Fin c\<rparr>"
    and st: "\<bar>st\<bar> \<le> MAX_VALUE"
    by (rule finite_inputs_record)
  with assms(2) have nw0: "nw0 = nw" by simp
  let ?A = "underflow (s * (1 - st))"
  have a: "afterTaxSalary i = ?A" "afterTaxSalary (i\<lparr>netWorth := Fin nw'\<rparr>) = ?A"
    using st by (simp_all add: i afterTaxSalary_def js_sub_def overflow_one_minus)
  have pass: "passRuleB i \<longleftrightarrow> 0 < nw \<and> js_le (js_div ?A (Fin nw)) (Fin (1 / 10))"
    by (simp add: passRuleB_def salaryVsNW_def a js_gt_def TARGET_SALARY_VS_NW_def)
      (simp add: i nw0)
  have pass': "passRuleB (i\<lparr>netWorth := Fin nw'\<rparr>) \<longleftrightarrow>
      0 < nw' \<and> js_le (js_div ?A (Fin nw')) (Fin (1 / 10))"
    by (simp add: passRuleB_def salaryVsNW_def a js_gt_def TARGET_SALARY_VS_NW_def)
  have mono: "passRuleB (i\<lparr>netWorth := Fin nw'\<rparr>)" if "passRuleB i"
  proof -
    from that pass have pos: "0 < nw" and le: "js_le (js_div ?A (Fin nw)) (Fin (1 / 10))"
      by simp_all
    from pos assms(3) have "0 < nw'" by simp
    with ratio_mono [OF pos assms(3) le] pass' show ?thesis by simp
  qed
  let ?N = "js_div ?A (Fin (1 / 10))"
  have N: "?N \<noteq> NaN" by (rule js_div_tenth_not_NaN) simp
  have d: "deltaNW_B i = Math_max (Fin 0) (js_sub ?N (Fin nw))"
    by (simp add: deltaNW_B_def neededNWforB_def a TARGET_SALARY_VS_NW_def) (simp add: i nw0)
  have d': "deltaNW_B (i\<lparr>netWorth := Fin nw'\<rparr>) = Math_max (Fin 0) (js_sub ?N (Fin nw'))"
    by (simp add: deltaNW_B_def neededNWforB_def a TARGET_SALARY_VS_NW_def)
  have le: "js_le (deltaNW_B (i\<lparr>netWorth := Fin nw'\<rparr>)) (deltaNW_B i)"
    unfolding d d' using assms(3) by (intro needed_mono [OF N]) simp
  have f: "deltaNW_B i =
           Math_max (Fin 0) (js_sub (js_div (afterTaxSalary i) (Fin (10 / 100))) (netWorth i))"
    by (simp add: deltaNW_B_def neededNWforB_def TARGET_SALARY_VS_NW_def)
  from mono le f show ?thesis by blast
qed

theorem rule_B_monotone_witness:
  "finite_inputs example_close \<and> netWorth example_close = Fin 4000000 \<and>
   (4000000 :: real) < 5000000 \<and>
   passRuleB example_close \<and> passRuleB (example_close\<lparr>netWorth := Fin 5000000\<rparr>) \<and>
   js_le (deltaNW_B (example_close\<lparr>netWorth := Fin 5000000\<rparr>)) (deltaNW_B example_close)"
proof -
  have h: "finite_inputs example_close" "netWorth example_close = Fin 4000000"
    "(4000000 :: real) < 5000000"
    by (simp_all add: example_close_def finite_inputs_def)
  have p: "passRuleB example_close"
    by (simp add: example_close_def num_defs rule_defs)
  from rule_B_monotone [OF h] h p show ?thesis by blast
qed

subsection \<open>The sensitivity scan\<close>

lemma verdictForR_spec: "verdictForR i r = spec_scenario i r"
  by (simp add: verdictForR_def spec_scenario_def Let_def passRuleB_def passRuleC_def
      passBuffer_def bGap_def cGap_def bufferGap_def bufferTarget_def afterTaxPortfolioReturn_def
      salaryVsNW_def afterTaxSalary_def masked_def CLOSE_BAND_FRACTION_def)

text \<open>
  Claim C9. The scan over the rates 0.08, 0.09, 0.10, 0.11, 0.12 gives five results in
  ascending order of the rate. For each rate \<open>r\<close> only the after-tax portfolio return is
  recomputed, as \<open>netWorth * r * (1 - investTaxRate)\<close>; Rule B's result and the buffer
  rule's result and gap are the evaluator's own; Rule C and its gap use the scenario
  return; the YES and CLOSE flags are those of the evaluator's verdict policy at the
  scenario rate; and the coverage is \<open>(scenarioReturn + sideIncome) / spend\<close>.
\<close>

theorem sensitivity_scan:
  "length (sensitivity i) = 5 \<and>
   map sc_r (sensitivity i) =
     [Fin (8 / 100), Fin (9 / 100), Fin (10 / 100), Fin (11 / 100), Fin (12 / 100)] \<and>
   sorted_wrt js_lt (map sc_r (sensitivity i)) \<and>
   sensitivity i = map (spec_scenario i) returnScenarios \<and>
   passRuleB (i\<lparr>investReturn := r\<rparr>) = passRuleB i \<and>
   passBuffer (i\<lparr>investReturn := r\<rparr>) = passBuffer i \<and>
   bGap (i\<lparr>investReturn := r\<rparr>) = bGap i \<and>
   bufferGap (i\<lparr>investReturn := r\<rparr>) = bufferGap i \<and>
   afterTaxPortfolioReturn (i\<lparr>investReturn := r\<rparr>) =
     js_mul (js_mul (netWorth i) r) (js_sub (Fin 1) (investTaxRate i)) \<and>
   sc_yes (verdictForR i r) = isYes (i\<lparr>investReturn := r\<rparr>) \<and>
   sc_close (verdictForR i r) = isClose (i\<lparr>investReturn := r\<rparr>) \<and>
   sc_coverage (verdictForR i r) =
     js_div (js_add (js_mul (js_mul (netWorth i) r) (js_sub (Fin 1) (investTaxRate i)))
       (sideIncome i)) (spend i)"
proof -
  have len: "length (sensitivity i) = 5"
    by (simp add: sensitivity_def returnScenarios_def)
  have rates: "map sc_r (sensitivity i) =
     [Fin (8 / 100), Fin (9 / 100), Fin (10 / 100), Fin (11 / 100), Fin (12 / 100)]"
    by (simp add: sensitivity_def returnScenarios_def verdictForR_spec spec_scenario_def Let_def)
  have asc: "sorted_wrt js_lt (map sc_r (sensitivity i))"
    unfolding rates by simp
  have spec: "sensitivity i = map (spec_scenario i) returnScenarios"
    by (simp add: sensitivity_def verdictForR_spec)
  have same: "passRuleB (i\<lparr>investReturn := r\<rparr>) = passRuleB i"
    "passBuffer (i\<lparr>investReturn := r\<rparr>) = passBuffer i"
    "bGap (i\<lparr>investReturn := r\<rparr>) = bGap i"
    "bufferGap (i\<lparr>investReturn := r\<rparr>) = bufferGap i"
    by (simp_all add: passRuleB_def passBuffer_def bGap_def bufferGap_def bufferTarget_def
        salaryVsNW_def afterTaxSalary_def)
  have ret: "afterTaxPortfolioReturn (i\<lparr>investReturn := r\<rparr>) =
     js_mul (js_mul (netWorth i) r) (js_sub (Fin 1) (investTaxRate i))"
    by (simp add: afterTaxPortfolioReturn_def)
  have yes: "sc_yes (verdictForR i r) = isYes (i\<lparr>investReturn := r\<rparr>)"
    by (simp add: verdictForR_spec spec_scenario_def Let_def isYes_def same)
  have close: "sc_close (verdictForR i r) = isClose (i\<lparr>investReturn := r\<rparr>)"
    by (simp add: verdictForR_spec spec_scenario_def Let_def isClose_def isYes_def worstGap_def
        failingGaps_def masked_def same CLOSE_BAND_FRACTION_def)
  have cov: "sc_coverage (verdictForR i r) =
     js_div (js_add (js_mul (js_mul (netWorth i) r) (js_sub (Fin 1) (investTaxRate i)))
       (sideIncome i)) (spend i)"
    by (simp add: verdictForR_def Let_def)
  from len rates asc spec same ret yes close cov show ?thesis by blast
qed

subsection \<open>The sides of the gaps\<close>

text \<open>
  A gap \<open>(X - d) / d\<close> over a divisor that is not negative lies on the side of the test
  \<open>d <= X\<close>, unless it is \<open>NaN\<close>: subtraction keeps the sign of the exact difference, and
  a division by a positive number keeps the sign or underflows to 0. With a positive
  spending this covers the gaps of Rule C and of the buffer rule, whose target may have
  underflowed to 0; the gap of Rule B is a difference.
\<close>

lemma gap_on_side:
  assumes "0 \<le> d" and "js_div (js_sub X (Fin d)) (Fin d) \<noteq> NaN"
  shows "on_side (js_le (Fin d) X) (js_div (js_sub X (Fin d)) (Fin d))"
proof (cases X)
  case NaN
  with assms(2) show ?thesis by (simp add: js_sub_def)
next
  case NInf
  with assms(1) show ?thesis by (simp add: js_sub_def on_side_def)
next
  case PInf
  with assms(1) show ?thesis by (simp add: js_sub_def on_side_def)
next
  case (Fin x)
  from overflow_cases [of "x - d"] show ?thesis
  proof (elim disjE conjE)
    assume "overflow (x - d) = PInf" "0 < x - d"
    with Fin assms(1) show ?thesis by (simp add: js_sub_def on_side_def)
  next
    assume "overflow (x - d) = NInf" "x - d < 0"
    with Fin assms(1) show ?thesis by (simp add: js_sub_def on_side_def)
  next
    assume o: "overflow (x - d) = Fin (x - d)"
    show ?thesis
    proof (cases "d = 0")
      case True
      with Fin o assms(2) show ?thesis
        by (auto simp: js_sub_def on_side_def signed_inf_def split: if_splits)
    next
      case False
      with assms(1) have "0 < d" by simp
      then have "d \<le> x \<Longrightarrow> 0 \<le> (x - d) / d" "\<not> d \<le> x \<Longrightarrow> (x - d) / d \<le> 0"
        by (simp_all add: divide_le_0_iff)
      with Fin o False show ?thesis
        by (auto simp: js_sub_def on_side_def intro: underflow_sign)
    qed
  qed
qed

lemma js_div_sub_PInf: "js_div (js_sub X PInf) PInf = NaN"
  by (cases X) (simp_all add: js_sub_def)

lemma bGap_on_side: "bGap i \<noteq> NaN \<Longrightarrow> on_side (passRuleB i) (bGap i)"
proof -
  assume n: "bGap i \<noteq> NaN"
  show ?thesis
  proof (cases "salaryVsNW i")
    case (Fin v)
    have "v \<le> 1 / 10 \<Longrightarrow> js_le (Fin 0) (overflow (1 / 10 - v))"
      "\<not> v \<le> 1 / 10 \<Longrightarrow> js_le (overflow (1 / 10 - v)) (Fin 0)"
      by (simp_all add: overflow_sign)
    with Fin show ?thesis
      by (simp add: bGap_def passRuleB_def on_side_def js_sub_def TARGET_SALARY_VS_NW_def)
  qed (use n in \<open>simp_all add: bGap_def passRuleB_def on_side_def js_sub_def
        TARGET_SALARY_VS_NW_def\<close>)
qed

lemma cGap_on_side:
  assumes "js_gt (spend i) (Fin 0)" and "cGap i \<noteq> NaN"
  shows "on_side (passRuleC i) (cGap i)"
proof (cases "spend i")
  case (Fin sp)
  with assms(1) have "0 \<le> sp" by (simp add: js_gt_def)
  from gap_on_side [OF this] assms(2) Fin show ?thesis
    by (simp add: cGap_def passRuleC_def js_ge_def)
next
  case PInf
  with assms(2) show ?thesis by (simp add: cGap_def js_div_sub_PInf)
qed (use assms in \<open>simp_all add: js_gt_def\<close>)

lemma underflow_nonneg:
  "0 \<le> x \<Longrightarrow> underflow x = PInf \<or> (\<exists>y\<ge>0. underflow x = Fin y)"
  using underflow_cases [of x] by (metis order_refl not_less)

lemma bufferTarget_cases:
  assumes "js_gt (spend i) (Fin 0)"
  shows "bufferTarget i = PInf \<or> (\<exists>d\<ge>0. bufferTarget i = Fin d)"
proof (cases "spend i")
  case (Fin sp)
  with assms have sp: "0 < sp" by (simp add: js_gt_def)
  from sp have "underflow (sp / 12) = PInf \<or> (\<exists>y\<ge>0. underflow (sp / 12) = Fin y)"
    by (intro underflow_nonneg) simp
  then have "js_div (spend i) (Fin 12) = PInf \<or> (\<exists>y\<ge>0. js_div (spend i) (Fin 12) = Fin y)"
    by (simp add: Fin)
  then show ?thesis
  proof
    assume "js_div (spend i) (Fin 12) = PInf"
    then show ?thesis
      by (simp add: bufferTarget_def CASH_BUFFER_MONTHS_def signed_inf_def)
  next
    assume "\<exists>y\<ge>0. js_div (spend i) (Fin 12) = Fin y"
    then obtain y where y: "0 \<le> y" "js_div (spend i) (Fin 12) = Fin y" by blast
    from y(1) have "underflow (y * 6) = PInf \<or> (\<exists>d\<ge>0. underflow (y * 6) = Fin d)"
      by (intro underflow_nonneg) simp
    with y(2) show ?thesis
      by (simp add: bufferTarget_def CASH_BUFFER_MONTHS_def)
  qed
next
  case PInf
  then show ?thesis
    by (simp add: bufferTarget_def CASH_BUFFER_MONTHS_def signed_inf_def)
qed (use assms in \<open>simp_all add: js_gt_def\<close>)

lemma bufferGap_on_side:
  assumes "js_gt (spend i) (Fin 0)" and "bufferGap i \<noteq> NaN"
  shows "on_side (passBuffer i) (bufferGap i)"
  using bufferTarget_cases [OF assms(1)]
proof
  assume "bufferTarget i = PInf"
  with assms(2) show ?thesis by (simp add: bufferGap_def js_div_sub_PInf)
next
  assume "\<exists>d\<ge>0. bufferTarget i = Fin d"
  then obtain d where d: "0 \<le> d" "bufferTarget i = Fin d" by blast
  from gap_on_side [OF d(1)] assms(2) d(2) show ?thesis
    by (simp add: bufferGap_def passBuffer_def js_ge_def)
qed

lemma driver_of_masked:
  assumes "on_side pB bG" and "on_side pC cG" and "on_side pBuf fG"
  shows "driver_of pB pC pBuf bG cG fG y =
         driver_of pB pC pBuf (masked pB bG) (masked pC cG) (masked pBuf fG) y"
  using assms
  by (cases bG; cases cG; cases fG)
    (auto simp: driver_of_def masked_def on_side_def split: if_splits)

subsection \<open>The top driver\<close>

text \<open>
  When each gap lies on the side of its rule, the comparisons of the driver selection
  against a passing rule's gap all succeed, as they do against \<open>+\<infinity>\<close>.
\<close>

lemma driver_never_passing:
  "(driver i = Salary_too_large \<longrightarrow> \<not> passRuleB i) \<and>
   (driver i = Spending_too_high \<longrightarrow> \<not> passRuleC i) \<and>
   (driver i = Insufficient_cash_buffer \<longrightarrow> \<not> passBuffer i)"
  by (simp add: driver_def driver_of_def)

lemma driver_on_side_cases:
  assumes "on_side (passRuleB i) (bGap i)" and "on_side (passRuleC i) (cGap i)"
    and "on_side (passBuffer i) (bufferGap i)"
  shows "(driver i = Salary_too_large \<longleftrightarrow>
            \<not> passRuleB i \<and> (passRuleC i \<or> js_le (bGap i) (cGap i)) \<and>
            (passBuffer i \<or> js_le (bGap i) (bufferGap i))) \<and>
         (driver i = Spending_too_high \<longleftrightarrow>
            \<not> passRuleC i \<and> (passRuleB i \<or> js_lt (cGap i) (bGap i)) \<and>
            (passBuffer i \<or> js_le (cGap i) (bufferGap i))) \<and>
         (driver i = Insufficient_cash_buffer \<longleftrightarrow>
            \<not> passBuffer i \<and> (passRuleB i \<or> js_lt (bufferGap i) (bGap i)) \<and>
            (passRuleC i \<or> js_lt (bufferGap i) (cGap i))) \<and>
         (driver i = Youre_good \<longleftrightarrow> passRuleB i \<and> passRuleC i \<and> passBuffer i) \<and>
         driver i \<noteq> Multiple_factors"
  using assms unfolding driver_def driver_of_def isYes_def on_side_def
  by (cases "bGap i"; cases "cGap i"; cases "bufferGap i"; cases "passRuleB i";
      cases "passRuleC i"; cases "passBuffer i"; simp; linarith?)

lemma spec_driver_on_side:
  assumes "on_side (passRuleB i) (bGap i)" and "on_side (passRuleC i) (cGap i)"
    and "on_side (passBuffer i) (bufferGap i)"
  shows "spec_driver i = Some (driver i)"
  using assms unfolding driver_def driver_of_def isYes_def on_side_def spec_driver_def
  by (cases "bGap i"; cases "cGap i"; cases "bufferGap i"; cases "passRuleB i";
      cases "passRuleC i"; cases "passBuffer i"; force)

text \<open>
  Claim C10, as stated, fails: at the finite input with the spending \<open>2^-1074\<close> and no
  cash the buffer target underflows to 0, the buffer rule passes with the gap
  \<open>0 / 0 = NaN\<close>, Rule B is the only failing rule, and the driver is "Multiple factors".
\<close>

theorem driver_is_failing_rule_counterexample:
  "finite_inputs example_underflow \<and> js_gt (spend example_underflow) (Fin 0) \<and>
   \<not> passRuleB example_underflow \<and> passRuleC example_underflow \<and>
   passBuffer example_underflow \<and>
   bufferTarget example_underflow = Fin 0 \<and> bufferGap example_underflow = NaN \<and>
   driver example_underflow = Multiple_factors"
  by (simp add: example_underflow_def finite_inputs_def num_defs rule_defs verdict_defs
      driver_def driver_of_def range_defs)

text \<open>
  Claim C10, amended. For every input with a positive spending in which none of the
  three gaps is \<open>NaN\<close>, the driver is the all-good label exactly when all three rules
  pass, and otherwise the label of a failing rule whose gap is least among the failing
  rules, ties going to Rule B, then Rule C, then the buffer; the fallback "Multiple
  factors" does not occur.
\<close>

theorem driver_is_failing_rule:
  assumes "js_gt (spend i) (Fin 0)"
    and "bGap i \<noteq> NaN" and "cGap i \<noteq> NaN" and "bufferGap i \<noteq> NaN"
  shows "driver i \<noteq> Multiple_factors \<and>
         (driver i = Youre_good \<longleftrightarrow> passRuleB i \<and> passRuleC i \<and> passBuffer i) \<and>
         (driver i = Salary_too_large \<longleftrightarrow>
            \<not> passRuleB i \<and> (passRuleC i \<or> js_le (bGap i) (cGap i)) \<and>
            (passBuffer i \<or> js_le (bGap i) (bufferGap i))) \<and>
         (driver i = Spending_too_high \<longleftrightarrow>
            \<not> passRuleC i \<and> (passRuleB i \<or> js_lt (cGap i) (bGap i)) \<and>
            (passBuffer i \<or> js_le (cGap i) (bufferGap i))) \<and>
         (driver i = Insufficient_cash_buffer \<longleftrightarrow>
            \<not> passBuffer i \<and> (passRuleB i \<or> js_lt (bufferGap i) (bGap i)) \<and>
            (passRuleC i \<or> js_lt (bufferGap i) (cGap i))) \<and>
         spec_driver i = Some (driver i)"
proof -
  note sides = bGap_on_side [OF assms(2)] cGap_on_side [OF assms(1,3)]
    bufferGap_on_side [OF assms(1,4)]
  from driver_on_side_cases [OF sides] spec_driver_on_side [OF sides] show ?thesis by blast
qed

theorem driver_is_failing_rule_witness:
  "js_gt (spend example1) (Fin 0) \<and>
   bGap example1 = Fin (- (2 / 100)) \<and> cGap example1 = Fin (1 / 3) \<and>
   bufferGap example1 = Fin (- (1 / 3)) \<and>
   \<not> passRuleB example1 \<and> passRuleC example1 \<and> \<not> passBuffer example1 \<and>
   js_lt (bufferGap example1) (bGap example1) \<and>
   driver example1 = Insufficient_cash_buffer \<and>
   spec_driver example1 = Some Insufficient_cash_buffer"
proof -
  have v: "bGap example1 = Fin (- (2 / 100))" "cGap example1 = Fin (1 / 3)"
    "bufferGap example1 = Fin (- (1 / 3))"
    "\<not> passRuleB example1" "passRuleC example1" "\<not> passBuffer example1"
    by (simp_all add: example1_def num_defs rule_defs)
  have h: "js_gt (spend example1) (Fin 0)" "bGap example1 \<noteq> NaN" "cGap example1 \<noteq> NaN"
    "bufferGap example1 \<noteq> NaN"
    by (simp_all add: v) (simp add: example1_def js_gt_def)
  from driver_is_failing_rule [OF h] v h(1) show ?thesis by simp
qed

text \<open>
  Claim C4, as stated, fails: with the spending and the cash at 0, Rule B is the only
  failing rule, the gap of the passing buffer rule is \<open>NaN\<close>, and the driver is "Multiple
  factors", where the selection with passing gaps at \<open>+\<infinity>\<close> names Rule B.
\<close>

theorem driver_masking_counterexample:
  "finite_inputs example_nan \<and>
   \<not> passRuleB example_nan \<and> passRuleC example_nan \<and> passBuffer example_nan \<and>
   bGap example_nan = Fin (- (2 / 100)) \<and> bufferGap example_nan = NaN \<and>
   driver example_nan = Multiple_factors \<and>
   spec_masked_driver example_nan = Salary_too_large \<and>
   driver example_nan \<noteq> spec_masked_driver example_nan"
  by (simp add: example_nan_def finite_inputs_def num_defs rule_defs verdict_defs
      driver_def driver_of_def spec_masked_driver_def masked_def)

text \<open>
  Claim C4, amended. For every input the worst gap is the minimum of the three gaps
  with each passing rule's gap replaced by \<open>+\<infinity>\<close>, and the driver is never the label of
  a passing rule. The driver selection compares the gaps as they are; for every input
  with a positive spending in which none of the three gaps is \<open>NaN\<close> it selects what it
  would select with each passing rule's gap replaced by \<open>+\<infinity>\<close>.
\<close>

theorem driver_masking:
  "failingGaps i =
     [masked (passRuleB i) (bGap i), masked (passRuleC i) (cGap i),
      masked (passBuffer i) (bufferGap i)] \<and>
   worstGap i =
     Math_min [masked (passRuleB i) (bGap i), masked (passRuleC i) (cGap i),
               masked (passBuffer i) (bufferGap i)] \<and>
   (driver i = Salary_too_large \<longrightarrow> \<not> passRuleB i) \<and>
   (driver i = Spending_too_high \<longrightarrow> \<not> passRuleC i) \<and>
   (driver i = Insufficient_cash_buffer \<longrightarrow> \<not> passBuffer i) \<and>
   (js_gt (spend i) (Fin 0) \<and> bGap i \<noteq> NaN \<and> cGap i \<noteq> NaN \<and> bufferGap i \<noteq> NaN \<longrightarrow>
      driver i = spec_masked_driver i)"
proof -
  have "failingGaps i =
     [masked (passRuleB i) (bGap i), masked (passRuleC i) (cGap i),
      masked (passBuffer i) (bufferGap i)]"
    by (simp add: failingGaps_def masked_def)
  moreover from this have "worstGap i =
     Math_min [masked (passRuleB i) (bGap i), masked (passRuleC i) (cGap i),
               masked (passBuffer i) (bufferGap i)]"
    by (simp add: worstGap_def)
  moreover have "driver i = spec_masked_driver i"
    if "js_gt (spend i) (Fin 0)" "bGap i \<noteq> NaN" "cGap i \<noteq> NaN" "bufferGap i \<noteq> NaN"
    unfolding driver_def spec_masked_driver_def
    by (intro driver_of_masked bGap_on_side cGap_on_side bufferGap_on_side that)
  ultimately show ?thesis
    using driver_never_passing [of i] by blast
qed

theorem driver_masking_witness:
  "js_gt (spend example1) (Fin 0) \<and>
   bGap example1 = Fin (- (2 / 100)) \<and> bufferGap example1 = Fin (- (1 / 3)) \<and>
   passRuleC example1 \<and> cGap example1 = Fin (1 / 3) \<and>
   worstGap example1 = Fin (- (1 / 3)) \<and>
   driver example1 = Insufficient_cash_buffer \<and> \<not> passBuffer example1 \<and>
   spec_masked_driver example1 = Insufficient_cash_buffer \<and>
   driver example_nw0_ok = Salary_too_large \<and> \<not> passRuleB example_nw0_ok \<and>
   driver example_close = Spending_too_high \<and> \<not> passRuleC example_close"
proof -
  have g: "bGap example1 = Fin (- (2 / 100))" "cGap example1 = Fin (1 / 3)"
    "bufferGap example1 = Fin (- (1 / 3))" "passRuleC example1"
    by (simp_all add: example1_def num_defs rule_defs)
  have h: "js_gt (spend example1) (Fin 0)"
    by (simp add: example1_def js_gt_def)
  have d: "driver example1 = Insufficient_cash_buffer"
    "driver example_nw0_ok = Salary_too_large"
    "driver example_close = Spending_too_high"
    by (simp_all add: example1_def example_nw0_ok_def example_close_def num_defs rule_defs
        verdict_defs driver_def driver_of_def)
  from driver_masking [of example1] h g d(1)
  have 1: "\<not> passBuffer example1" "spec_masked_driver example1 = Insufficient_cash_buffer"
    "worstGap example1 = Math_min [masked (passRuleB example1) (bGap example1),
       masked (passRuleC example1) (cGap example1),
       masked (passBuffer example1) (bufferGap example1)]"
    by simp_all
  from 1(3) have w: "worstGap example1 = Fin (- (1 / 3))"
    by (simp add: example1_def num_defs rule_defs masked_def)
  from driver_masking [of example_nw0_ok] d(2) have 2: "\<not> passRuleB example_nw0_ok" by blast
  from driver_masking [of example_close] d(3) have 3: "\<not> passRuleC example_close" by blast
  from h g d 1(1,2) w 2 3 show ?thesis by simp
qed

text \<open>
  Claim C5, as stated, fails: with no net worth, a positive salary, no spending and no
  side income, Rule B fails with gap \<open>-\<infinity>\<close>, the gap of the passing Rule C is \<open>NaN\<close>, and
  the driver is "Multiple factors".
\<close>

theorem zero_net_worth_counterexample:
  "finite_inputs example_nw0 \<and> netWorth example_nw0 = Fin 0 \<and>
   js_gt (salary example_nw0) (Fin 0) \<and>
   salaryVsNW example_nw0 = PInf \<and> \<not> passRuleB example_nw0 \<and> bGap example_nw0 = NInf \<and>
   passRuleC example_nw0 \<and> cGap example_nw0 = NaN \<and>
   driver example_nw0 = Multiple_factors \<and> driver example_nw0 \<noteq> Salary_too_large"
  by (simp add: example_nw0_def finite_inputs_def num_defs rule_defs verdict_defs
      driver_def driver_of_def)

text \<open>
  Claim C5, amended. For every input with no net worth and a positive salary, the salary
  to net worth ratio is \<open>+\<infinity>\<close> and Rule B fails with gap \<open>-\<infinity>\<close>; the driver is the label
  of Rule B exactly when neither the gap of Rule C nor the gap of the buffer rule is
  \<open>NaN\<close>.
\<close>

theorem zero_net_worth_driver:
  assumes "netWorth i = Fin 0" and "js_gt (salary i) (Fin 0)"
  shows "salaryVsNW i = PInf \<and> \<not> passRuleB i \<and> bGap i = NInf \<and>
         (driver i = Salary_too_large \<longleftrightarrow> cGap i \<noteq> NaN \<and> bufferGap i \<noteq> NaN)"
proof -
  from assms(1) have v: "salaryVsNW i = PInf" by (simp add: salaryVsNW_def js_gt_def)
  then have p: "\<not> passRuleB i" and b: "bGap i = NInf"
    by (simp_all add: passRuleB_def bGap_def js_sub_def TARGET_SALARY_VS_NW_def)
  have "driver i = Salary_too_large \<longleftrightarrow> cGap i \<noteq> NaN \<and> bufferGap i \<noteq> NaN"
    by (simp add: driver_def driver_of_def p b js_le_NInf)
  with v p b show ?thesis by simp
qed

theorem zero_net_worth_driver_witness:
  "netWorth example_nw0_ok = Fin 0 \<and> js_gt (salary example_nw0_ok) (Fin 0) \<and>
   cGap example_nw0_ok = Fin (- 1) \<and> bufferGap example_nw0_ok = Fin (- (1 / 3)) \<and>
   salaryVsNW example_nw0_ok = PInf \<and> \<not> passRuleB example_nw0_ok \<and>
   bGap example_nw0_ok = NInf \<and> driver example_nw0_ok = Salary_too_large"
proof -
  have h: "netWorth example_nw0_ok = Fin 0" "js_gt (salary example_nw0_ok) (Fin 0)"
    by (simp_all add: example_nw0_ok_def js_gt_def)
  have g: "cGap example_nw0_ok = Fin (- 1)" "bufferGap example_nw0_ok = Fin (- (1 / 3))"
    by (simp_all add: example_nw0_ok_def num_defs rule_defs)
  from zero_net_worth_driver [OF h] h g show ?thesis by simp
qed

subsection \<open>The next step\<close>

text \<open>
  The fold of \<open>pick\<close> returns the first element of the list that no other element
  undercuts, as long as no magnitude is \<open>NaN\<close>.
\<close>

lemma find_first: "P b \<Longrightarrow> \<forall>d\<in>set ys. \<not> P d \<Longrightarrow> find P (ys @ b # zs) = Some b"
  by (induction ys) auto

lemma foldl_pick_first_min:
  assumes "\<forall>d\<in>set (a # xs). d_value d \<noteq> NaN"
  shows "\<exists>ys zs. a # xs = ys @ foldl pick a xs # zs \<and>
           (\<forall>e\<in>set (a # xs). js_le (d_value (foldl pick a xs)) (d_value e)) \<and>
           (\<forall>d\<in>set ys. \<not> js_le (d_value d) (d_value (foldl pick a xs)))"
  using assms
proof (induction xs rule: rev_induct)
  case Nil
  then have "js_le (d_value a) (d_value a)" by (simp add: js_le_refl)
  moreover have "a # [] = [] @ foldl pick a [] # []" by simp
  ultimately show ?case by (intro exI [of _ "[]"]) simp
next
  case (snoc x xs)
  let ?m = "foldl pick a xs"
  from snoc.prems have nn: "\<forall>d\<in>set (a # xs). d_value d \<noteq> NaN" and nx: "d_value x \<noteq> NaN"
    by auto
  from snoc.IH [OF nn] obtain ys zs where
    split: "a # xs = ys @ ?m # zs" and
    least: "\<forall>e\<in>set (a # xs). js_le (d_value ?m) (d_value e)" and
    first: "\<forall>d\<in>set ys. \<not> js_le (d_value d) (d_value ?m)"
    by blast
  have mem: "?m \<in> set (a # xs)"
    by (subst split) simp
  with nn have nm: "d_value ?m \<noteq> NaN" by blast
  show ?case
  proof (cases "js_le (d_value ?m) (d_value x)")
    case True
    then have res: "foldl pick a (xs @ [x]) = ?m" by (simp add: pick_def)
    have "a # xs @ [x] = ys @ ?m # (zs @ [x])"
      using split by simp
    moreover have "\<forall>e\<in>set (a # xs @ [x]). js_le (d_value ?m) (d_value e)"
      using least True by auto
    ultimately show ?thesis
      unfolding res using first by blast
  next
    case False
    then have res: "foldl pick a (xs @ [x]) = x" by (simp add: pick_def)
    from False js_le_total [OF nm nx] have xm: "js_le (d_value x) (d_value ?m)" by blast
    have "a # xs @ [x] = (a # xs) @ x # []" by simp
    moreover have "\<forall>e\<in>set (a # xs @ [x]). js_le (d_value x) (d_value e)"
      using least xm nx by (auto intro: js_le_trans js_le_refl)
    moreover have "\<forall>d\<in>set (a # xs). \<not> js_le (d_value d) (d_value x)"
    proof
      fix d assume "d \<in> set (a # xs)"
      with least have "js_le (d_value ?m) (d_value d)" by blast
      with False show "\<not> js_le (d_value d) (d_value x)"
        by (blast intro: js_le_trans)
    qed
    ultimately show ?thesis
      unfolding res by blast
  qed
qed

lemma reduce_pick_spec_best:
  assumes "ds \<noteq> []" and "\<forall>d\<in>set ds. d_value d \<noteq> NaN"
  shows "\<exists>b. reduce pick ds = Inr b \<and> spec_best ds = Some b \<and> b \<in> set ds \<and>
           (\<forall>e\<in>set ds. js_le (d_value b) (d_value e))"
proof -
  from assms(1) obtain a xs where ds: "ds = a # xs" by (cases ds) auto
  let ?b = "foldl pick a xs"
  from foldl_pick_first_min [of a xs] assms(2) ds obtain ys zs where
    split: "a # xs = ys @ ?b # zs" and
    least: "\<forall>e\<in>set (a # xs). js_le (d_value ?b) (d_value e)" and
    first: "\<forall>d\<in>set ys. \<not> js_le (d_value d) (d_value ?b)"
    by blast
  have mem: "?b \<in> set (a # xs)" by (subst split) simp
  have "find (\<lambda>d. list_all (\<lambda>e. js_le (d_value d) (d_value e)) (a # xs)) (ys @ ?b # zs) = Some ?b"
  proof (rule find_first)
    show "list_all (\<lambda>e. js_le (d_value ?b) (d_value e)) (a # xs)"
      using least by (simp add: list_all_iff)
    show "\<forall>d\<in>set ys. \<not> list_all (\<lambda>e. js_le (d_value d) (d_value e)) (a # xs)"
      using first mem by (auto simp: list_all_iff)
  qed
  then have "spec_best ds = Some ?b"
    unfolding spec_best_def ds using split by simp
  with least mem show ?thesis by (simp add: ds)
qed

lemma deltas_empty_iff: "deltas i = [] \<longleftrightarrow> isYes i"
  by (simp add: deltas_def isYes_def)

text \<open>
  Claim C3, as stated, fails: at finite inputs where the portfolio return overflows and
  is multiplied by 0, the two levers of Rule C that carry the shortfall are \<open>NaN\<close>, every
  comparison with them is false, and \<^verbatim>\<open>reduce\<close> ends on the buffer lever 7.5e307 although
  the lever of Rule B, 5e307, is listed and smaller.
\<close>

theorem next_step_selection_counterexample:
  "finite_inputs example_overflow \<and>
   deltas example_overflow =
     [\<lparr>d_label = ''Grow net worth (Rule B)'', d_value = Fin (5 * 10 ^ 307)\<rparr>,
      \<lparr>d_label = ''Add side income'', d_value = NaN\<rparr>,
      \<lparr>d_label = ''Cut spending'', d_value = NaN\<rparr>,
      \<lparr>d_label = ''Grow net worth (Rule C)'', d_value = PInf\<rparr>,
      \<lparr>d_label = ''Hold more cash'', d_value = Fin (75 * 10 ^ 306)\<rparr>] \<and>
   best example_overflow = Inr \<lparr>d_label = ''Hold more cash'', d_value = Fin (75 * 10 ^ 306)\<rparr> \<and>
   js_lt (Fin (5 * 10 ^ 307)) (Fin (75 * 10 ^ 306)) \<and>
   spec_best (deltas example_overflow) \<noteq>
     Some \<lparr>d_label = ''Hold more cash'', d_value = Fin (75 * 10 ^ 306)\<rparr>"
proof -
  have f: "finite_inputs example_overflow"
    by (simp add: example_overflow_def finite_inputs_def range_defs)
  have d: "deltas example_overflow =
     [\<lparr>d_label = ''Grow net worth (Rule B)'', d_value = Fin (5 * 10 ^ 307)\<rparr>,
      \<lparr>d_label = ''Add side income'', d_value = NaN\<rparr>,
      \<lparr>d_label = ''Cut spending'', d_value = NaN\<rparr>,
      \<lparr>d_label = ''Grow net worth (Rule C)'', d_value = PInf\<rparr>,
      \<lparr>d_label = ''Hold more cash'', d_value = Fin (75 * 10 ^ 306)\<rparr>]"
    by (simp add: example_overflow_def num_defs rule_defs neededNWforB_def deltaNW_B_def
        shortfallC_def atRetPerDollar_def deltaNW_C_def bufferShort_def deltas_def range_defs)
  have b: "best example_overflow =
      Inr \<lparr>d_label = ''Hold more cash'', d_value = Fin (75 * 10 ^ 306)\<rparr>"
    unfolding best_def d by (simp add: pick_def)
  have s: "spec_best (deltas example_overflow) \<noteq>
     Some \<lparr>d_label = ''Hold more cash'', d_value = Fin (75 * 10 ^ 306)\<rparr>"
    unfolding d by (simp add: spec_best_def)
  from f d b s show ?thesis by simp
qed

text \<open>
  Claim C3, amended. For every input the candidate list holds levers of failing rules
  only, in the order Rule B, then the three levers of Rule C (side income, cut spending,
  grow net worth), then the buffer; it is empty exactly when all three rules pass, and
  the next step is then the fixed coasting message. Otherwise, whenever no candidate's
  magnitude is \<open>NaN\<close>, the selected candidate is one of smallest magnitude, the
  first-listed one among equals, and the next step is its sentence.
\<close>

theorem next_step_selection:
  "map d_label (deltas i) =
     (if passRuleB i then [] else [''Grow net worth (Rule B)'']) @
     (if passRuleC i then [] else [''Add side income'', ''Cut spending'', ''Grow net worth (Rule C)'']) @
     (if passBuffer i then [] else [''Hold more cash'']) \<and>
   (deltas i = [] \<longleftrightarrow> passRuleB i \<and> passRuleC i \<and> passBuffer i) \<and>
   (deltas i = [] \<longrightarrow> nextStep i = Inr You_can_coast) \<and>
   (deltas i \<noteq> [] \<and> (\<forall>d\<in>set (deltas i). d_value d \<noteq> NaN) \<longrightarrow>
      (\<exists>b. best i = Inr b \<and> nextStep i = Inr (render b) \<and> spec_best (deltas i) = Some b \<and>
           b \<in> set (deltas i) \<and> (\<forall>e\<in>set (deltas i). js_le (d_value b) (d_value e))))"
proof -
  have labels: "map d_label (deltas i) =
     (if passRuleB i then [] else [''Grow net worth (Rule B)'']) @
     (if passRuleC i then [] else [''Add side income'', ''Cut spending'', ''Grow net worth (Rule C)'']) @
     (if passBuffer i then [] else [''Hold more cash''])"
    by (simp add: deltas_def)
  have empty: "deltas i = [] \<longleftrightarrow> passRuleB i \<and> passRuleC i \<and> passBuffer i"
    by (simp add: deltas_empty_iff isYes_def)
  have coast: "deltas i = [] \<longrightarrow> nextStep i = Inr You_can_coast"
    by (simp add: nextStep_def)
  have sel: "\<exists>b. best i = Inr b \<and> nextStep i = Inr (render b) \<and> spec_best (deltas i) = Some b \<and>
           b \<in> set (deltas i) \<and> (\<forall>e\<in>set (deltas i). js_le (d_value b) (d_value e))"
    if ne: "deltas i \<noteq> []" and nn: "\<forall>d\<in>set (deltas i). d_value d \<noteq> NaN"
  proof -
    from reduce_pick_spec_best [OF ne nn] obtain b where
      b: "reduce pick (deltas i) = Inr b" "spec_best (deltas i) = Some b" "b \<in> set (deltas i)"
         "\<forall>e\<in>set (deltas i). js_le (d_value b) (d_value e)"
      by blast
    with ne have "nextStep i = Inr (render b)"
      by (simp add: nextStep_def best_def)
    with b show ?thesis by (auto simp: best_def)
  qed
  from labels empty coast sel show ?thesis by blast
qed

theorem next_step_selection_witness:
  "deltas example1 \<noteq> [] \<and>
   deltas example1 =
     [\<lparr>d_label = ''Grow net worth (Rule B)'', d_value = Fin 600000\<rparr>,
      \<lparr>d_label = ''Hold more cash'', d_value = Fin 30000\<rparr>] \<and>
   list_all (\<lambda>d. d_value d \<noteq> NaN) (deltas example1) \<and>
   best example1 = Inr \<lparr>d_label = ''Hold more cash'', d_value = Fin 30000\<rparr> \<and>
   spec_best (deltas example1) = Some \<lparr>d_label = ''Hold more cash'', d_value = Fin 30000\<rparr> \<and>
   nextStep example1 = Inr (Hold_more_in_cash (Fin 30000)) \<and>
   deltas example2 = [] \<and> verdict example2 = YES \<and> nextStep example2 = Inr You_can_coast"
proof -
  have a: "deltas example2 = []" "verdict example2 = YES"
    by (simp_all add: example2_def num_defs rule_defs verdict_defs step_defs)
  have b: "deltas example1 =
     [\<lparr>d_label = ''Grow net worth (Rule B)'', d_value = Fin 600000\<rparr>,
      \<lparr>d_label = ''Hold more cash'', d_value = Fin 30000\<rparr>]"
    by (simp add: example1_def num_defs rule_defs step_defs)
  then have n: "deltas example1 \<noteq> []" "\<forall>d\<in>set (deltas example1). d_value d \<noteq> NaN"
    by simp_all
  from n(2) have l: "list_all (\<lambda>d. d_value d \<noteq> NaN) (deltas example1)"
    by (simp add: list_all_iff)
  from next_step_selection [of example2] a have c: "nextStep example2 = Inr You_can_coast"
    by blast
  from next_step_selection [of example1] n obtain d where
    d: "best example1 = Inr d" "nextStep example1 = Inr (render d)"
       "spec_best (deltas example1) = Some d"
    by blast
  from d(3) have "d = \<lparr>d_label = ''Hold more cash'', d_value = Fin 30000\<rparr>"
    by (simp add: b spec_best_def)
  with d have "best example1 = Inr \<lparr>d_label = ''Hold more cash'', d_value = Fin 30000\<rparr>"
    "spec_best (deltas example1) = Some \<lparr>d_label = ''Hold more cash'', d_value = Fin 30000\<rparr>"
    "nextStep example1 = Inr (Hold_more_in_cash (Fin 30000))"
    by (simp_all add: render_def pretty_def Math_max_def)
  with a b c n(1) l show ?thesis by simp
qed

subsection \<open>The displayed amount\<close>

text \<open>
  Whatever the magnitudes, \<^verbatim>\<open>reduce\<close> returns one of the candidates, and no magnitude is
  negative.
\<close>

lemma foldl_pick_mem: "foldl pick a xs \<in> set (a # xs)"
  by (induction xs arbitrary: a) (auto simp: pick_def)

lemma reduce_pick_mem: "ds \<noteq> [] \<Longrightarrow> \<exists>b. reduce pick ds = Inr b \<and> b \<in> set ds"
  using foldl_pick_mem by (cases ds) auto

lemma js_div_not_negative:
  "not_negative s \<Longrightarrow> js_lt (Fin 0) q \<Longrightarrow> not_negative (js_div s q)"
proof (cases s; cases q)
  fix a b assume "not_negative s" "js_lt (Fin 0) q" "s = Fin a" "q = Fin b"
  then have ab: "0 \<le> a" "0 < b" "s = Fin a" "q = Fin b" by (simp_all add: not_negative_def)
  then have "0 \<le> a / b" by simp
  from underflow_nonneg [OF this] ab show ?thesis
    by (auto simp: not_negative_def)
qed (auto simp: not_negative_def)

lemma deltas_not_negative: "\<forall>d\<in>set (deltas i). not_negative (d_value d)"
proof -
  have b: "not_negative (deltaNW_B i)" "not_negative (shortfallC i)" "not_negative (bufferShort i)"
    by (simp_all add: deltaNW_B_def shortfallC_def bufferShort_def Math_max_0_not_negative)
  have "not_negative (deltaNW_C i)"
    using js_div_not_negative [OF b(2), of "atRetPerDollar i"]
    by (simp add: deltaNW_C_def js_gt_def not_negative_def)
  with b show ?thesis by (simp add: deltas_def)
qed

lemma deltas_labels:
  "b \<in> set (deltas i) \<Longrightarrow>
     d_label b \<in> {''Grow net worth (Rule B)'', ''Add side income'', ''Cut spending'',
                  ''Grow net worth (Rule C)'', ''Hold more cash''}"
  by (auto simp: deltas_def split: if_splits)

lemma amount_of_render:
  "d_label b \<in> {''Grow net worth (Rule B)'', ''Add side income'', ''Cut spending'',
                 ''Grow net worth (Rule C)'', ''Hold more cash''} \<Longrightarrow>
   amount_of (render b) = Some (pretty (d_value b))"
  by (auto simp: render_def)

lemma pretty_Fin: "0 \<le> v \<Longrightarrow> pretty (Fin v) = Fin (of_int \<lfloor>v + 1 / 2\<rfloor>)"
proof -
  assume "0 \<le> v"
  then have "0 \<le> \<lfloor>v + 1 / 2\<rfloor>" by simp
  then have "(0::real) \<le> of_int \<lfloor>v + 1 / 2\<rfloor>" by simp
  then show ?thesis by (simp add: pretty_def Math_max_def)
qed

text \<open>
  Claim C8, as stated, fails: with 59,999.60 of cash the selected lever is the buffer
  with magnitude 30,000.40; the amount shown is 30,000, which is less than the magnitude
  and is not its ceiling 30,001.
\<close>

theorem shown_amount_counterexample:
  "finite_inputs example_round \<and> \<not> isYes example_round \<and>
   best example_round = Inr \<lparr>d_label = ''Hold more cash'', d_value = Fin (150002 / 5)\<rparr> \<and>
   nextStep example_round = Inr (Hold_more_in_cash (Fin 30000)) \<and>
   spec_pretty (Fin (150002 / 5)) = Fin 30001 \<and>
   pretty (Fin (150002 / 5)) \<noteq> spec_pretty (Fin (150002 / 5)) \<and>
   js_lt (Fin 30000) (Fin (150002 / 5))"
  by (simp add: example_round_def finite_inputs_def num_defs rule_defs verdict_defs step_defs
      spec_pretty_def)

text \<open>
  Claim C8, amended. For every failing configuration the amount in the next-step
  sentence is \<open>Math.max(0, Math.round(m))\<close> for the magnitude \<open>m\<close> of the selected lever,
  and \<open>m\<close> is a finite number from 0 on, \<open>+\<infinity>\<close> or \<open>NaN\<close>. A finite \<open>m\<close> is shown rounded to
  the nearest integer, a half going up: the amount shown is then never negative and
  lies within one half of \<open>m\<close>. An infinite \<open>m\<close> and \<open>NaN\<close> are shown as they are.
\<close>

theorem shown_amount_rounded:
  assumes "\<not> isYes i"
  shows "\<exists>b. best i = Inr b \<and> b \<in> set (deltas i) \<and> nextStep i = Inr (render b) \<and>
           amount_of (render b) = Some (pretty (d_value b)) \<and>
           pretty (d_value b) = Math_max (Fin 0) (Math_round (d_value b)) \<and>
           (d_value b = NaN \<and> pretty (d_value b) = NaN \<or>
            d_value b = PInf \<and> pretty (d_value b) = PInf \<or>
            (\<exists>v. d_value b = Fin v \<and> 0 \<le> v \<and>
                 pretty (d_value b) = Fin (of_int \<lfloor>v + 1 / 2\<rfloor>) \<and>
                 (0::real) \<le> of_int \<lfloor>v + 1 / 2\<rfloor> \<and>
                 v - 1 / 2 < of_int \<lfloor>v + 1 / 2\<rfloor> \<and> of_int \<lfloor>v + 1 / 2\<rfloor> \<le> v + 1 / 2))"
proof -
  from assms have ne: "deltas i \<noteq> []" by (simp add: deltas_empty_iff)
  from reduce_pick_mem [OF ne] obtain b where
    b: "best i = Inr b" "b \<in> set (deltas i)"
    by (auto simp: best_def)
  with ne have n: "nextStep i = Inr (render b)" by (simp add: nextStep_def)
  from amount_of_render [OF deltas_labels [OF b(2)]]
  have a: "amount_of (render b) = Some (pretty (d_value b))" .
  have p: "pretty (d_value b) = Math_max (Fin 0) (Math_round (d_value b))"
    by (simp add: pretty_def)
  from deltas_not_negative b(2) have nn: "not_negative (d_value b)" by blast
  have "d_value b = NaN \<and> pretty (d_value b) = NaN \<or>
        d_value b = PInf \<and> pretty (d_value b) = PInf \<or>
        (\<exists>v. d_value b = Fin v \<and> 0 \<le> v \<and>
             pretty (d_value b) = Fin (of_int \<lfloor>v + 1 / 2\<rfloor>) \<and>
             (0::real) \<le> of_int \<lfloor>v + 1 / 2\<rfloor> \<and>
             v - 1 / 2 < of_int \<lfloor>v + 1 / 2\<rfloor> \<and> of_int \<lfloor>v + 1 / 2\<rfloor> \<le> v + 1 / 2)"
  proof (cases "d_value b")
    case (Fin v)
    with nn have v: "0 \<le> v" by (simp add: not_negative_def)
    then have "0 \<le> \<lfloor>v + 1 / 2\<rfloor>" by simp
    then have "(0::real) \<le> of_int \<lfloor>v + 1 / 2\<rfloor>" by simp
    moreover have "v - 1 / 2 < of_int \<lfloor>v + 1 / 2\<rfloor>" by linarith
    moreover have "of_int \<lfloor>v + 1 / 2\<rfloor> \<le> v + 1 / 2" by linarith
    ultimately show ?thesis using Fin v by (simp add: pretty_Fin)
  qed (use nn in \<open>simp_all add: not_negative_def pretty_def Math_max_def\<close>)
  with b n a p show ?thesis by blast
qed

theorem shown_amount_rounded_witness:
  "\<not> isYes example_round \<and>
   best example_round = Inr \<lparr>d_label = ''Hold more cash'', d_value = Fin (150002 / 5)\<rparr> \<and>
   nextStep example_round = Inr (Hold_more_in_cash (Fin 30000)) \<and>
   amount_of (Hold_more_in_cash (Fin 30000)) = Some (pretty (Fin (150002 / 5))) \<and>
   \<not> isYes example_infinite \<and>
   best example_infinite = Inr \<lparr>d_label = ''Grow net worth (Rule B)'', d_value = PInf\<rparr> \<and>
   nextStep example_infinite = Inr (Add_to_net_worth_for_salary PInf)"
proof -
  have h: "\<not> isYes example_round"
    by (simp add: example_round_def num_defs rule_defs verdict_defs)
  have v: "best example_round = Inr \<lparr>d_label = ''Hold more cash'', d_value = Fin (150002 / 5)\<rparr>"
    "nextStep example_round = Inr (Hold_more_in_cash (Fin 30000))"
    by (simp_all add: example_round_def num_defs rule_defs step_defs)
  from shown_amount_rounded [OF h] obtain b where
    "best example_round = Inr b" "nextStep example_round = Inr (render b)"
    "amount_of (render b) = Some (pretty (d_value b))"
    by blast
  with v have a: "amount_of (Hold_more_in_cash (Fin 30000)) = Some (pretty (Fin (150002 / 5)))"
    by simp
  have h': "\<not> isYes example_infinite"
    by (simp add: example_infinite_def num_defs rule_defs verdict_defs range_defs)
  have d: "deltas example_infinite = [\<lparr>d_label = ''Grow net worth (Rule B)'', d_value = PInf\<rparr>]"
    by (simp add: example_infinite_def num_defs rule_defs neededNWforB_def deltaNW_B_def
        deltas_def range_defs)
  from shown_amount_rounded [OF h'] obtain b' where
    b': "best example_infinite = Inr b'" "b' \<in> set (deltas example_infinite)"
      "nextStep example_infinite = Inr (render b')"
    by blast
  from b'(2) have "b' = \<lparr>d_label = ''Grow net worth (Rule B)'', d_value = PInf\<rparr>"
    by (simp add: d)
  with b' have "best example_infinite =
      Inr \<lparr>d_label = ''Grow net worth (Rule B)'', d_value = PInf\<rparr>"
    "nextStep example_infinite = Inr (Add_to_net_worth_for_salary PInf)"
    by (simp_all add: render_def pretty_def Math_max_def)
  with h v a h' show ?thesis by simp
qed

end
